theory Spec2Isabelle
  imports Complex_Main
begin

section \<open>Numbers\<close>

text \<open>
  The editor computes with JavaScript numbers. Coordinates that are stored in the
  document or delivered by pointer events are finite; they are modelled as
  \<^typ>\<open>real\<close>, so rounding and overflow of IEEE doubles are outside the model.
  The non-finite values \<open>Infinity\<close>, \<open>-Infinity\<close> and \<open>NaN\<close> are modelled
  explicitly, because \<open>anchorPoint\<close> produces them on purpose (\<open>Infinity\<close> as the
  scale factor of a zero component) and by division by zero (a zero-sized ellipse).
  Zero is unsigned: every zero divisor of the source is a square or an absolute
  value, hence \<open>+0\<close>.
\<close>

datatype jsnum = Fin real | PInf | NInf | NaN

fun jadd :: "jsnum \<Rightarrow> jsnum \<Rightarrow> jsnum" where
  "jadd NaN _ = NaN"
| "jadd _ NaN = NaN"
| "jadd (Fin a) (Fin b) = Fin (a + b)"
| "jadd PInf NInf = NaN"
| "jadd NInf PInf = NaN"
| "jadd PInf _ = PInf"
| "jadd _ PInf = PInf"
| "jadd NInf _ = NInf"
| "jadd _ NInf = NInf"

fun jmul :: "jsnum \<Rightarrow> jsnum \<Rightarrow> jsnum" where
  "jmul NaN _ = NaN"
| "jmul _ NaN = NaN"
| "jmul (Fin a) (Fin b) = Fin (a * b)"
| "jmul (Fin a) PInf = (if a = 0 then NaN else if 0 < a then PInf else NInf)"
| "jmul (Fin a) NInf = (if a = 0 then NaN else if 0 < a then NInf else PInf)"
| "jmul PInf (Fin b) = (if b = 0 then NaN else if 0 < b then PInf else NInf)"
| "jmul NInf (Fin b) = (if b = 0 then NaN else if 0 < b then NInf else PInf)"
| "jmul PInf PInf = PInf"
| "jmul NInf NInf = PInf"
| "jmul PInf NInf = NInf"
| "jmul NInf PInf = NInf"

fun jdiv :: "jsnum \<Rightarrow> jsnum \<Rightarrow> jsnum" where
  "jdiv NaN _ = NaN"
| "jdiv _ NaN = NaN"
| "jdiv (Fin a) (Fin b) =
     (if b \<noteq> 0 then Fin (a / b)
      else if a = 0 then NaN else if 0 < a then PInf else NInf)"
| "jdiv (Fin a) PInf = Fin 0"
| "jdiv (Fin a) NInf = Fin 0"
| "jdiv PInf (Fin b) = (if 0 \<le> b then PInf else NInf)"
| "jdiv NInf (Fin b) = (if 0 \<le> b then NInf else PInf)"
| "jdiv PInf PInf = NaN"
| "jdiv PInf NInf = NaN"
| "jdiv NInf PInf = NaN"
| "jdiv NInf NInf = NaN"

fun jsqrt :: "jsnum \<Rightarrow> jsnum" where
  "jsqrt (Fin a) = (if a < 0 then NaN else Fin (sqrt a))"
| "jsqrt PInf = PInf"
| "jsqrt NInf = NaN"
| "jsqrt NaN = NaN"

text \<open>Comparison \<open>a <= b\<close>: false whenever an operand is \<open>NaN\<close>.\<close>

fun jle :: "jsnum \<Rightarrow> jsnum \<Rightarrow> bool" where
  "jle NaN _ = False"
| "jle _ NaN = False"
| "jle (Fin a) (Fin b) = (a \<le> b)"
| "jle NInf _ = True"
| "jle _ PInf = True"
| "jle PInf _ = False"
| "jle _ NInf = False"

text \<open>\<open>Math.min\<close> and \<open>Math.max\<close> of two numbers: \<open>NaN\<close> if an operand is.\<close>

fun jmin :: "jsnum \<Rightarrow> jsnum \<Rightarrow> jsnum" where
  "jmin NaN _ = NaN"
| "jmin _ NaN = NaN"
| "jmin a b = (if jle a b then a else b)"

fun jmax :: "jsnum \<Rightarrow> jsnum \<Rightarrow> jsnum" where
  "jmax NaN _ = NaN"
| "jmax _ NaN = NaN"
| "jmax a b = (if jle a b then b else a)"

text \<open>
  \<open>Math.round\<close> rounds to the nearest integer, a tie going up:
  \<open>Math.round(2.5) = 3\<close>, \<open>Math.round(-2.5) = -2\<close>.
\<close>

definition math_round :: "real \<Rightarrow> int" where
  "math_round v = \<lfloor>v + 1 / 2\<rfloor>"

section \<open>Geometry kernel\<close>

definition gridSize :: real where
  "gridSize = 20"

definition snap :: "real \<Rightarrow> real" where
  "snap v = real_of_int (math_round (v / gridSize)) * gridSize"

text \<open>A coordinate is on the grid when it is an integer multiple of the grid unit.\<close>

definition grid_aligned :: "real \<Rightarrow> bool" where
  "grid_aligned v = (real_of_int \<lfloor>v / gridSize\<rfloor> * gridSize = v)"

record point =
  px :: real
  py :: real

record jpoint =
  jx :: jsnum
  jy :: jsnum

definition fin_point :: "point \<Rightarrow> jpoint" where
  "fin_point p = \<lparr>jx = Fin (px p), jy = Fin (py p)\<rparr>"

text \<open>
  A shape object \<open>{id,type,x,y,w,h,fill,outline,width,text,symbol}\<close>. The type is the
  string the source compares (\<open>'rect'\<close>, \<open>'ellipse'\<close>, \<open>'symbol'\<close>; a loaded document
  may hold any other). A field a loaded document may lack is an option.
\<close>

record shape =
  s_id :: int
  s_type :: string
  s_x :: real
  s_y :: real
  s_w :: real
  s_h :: real
  s_fill :: string
  s_outline :: string
  s_width :: int
  s_text :: string
  s_symbol :: "string option"

definition shapeCenter :: "shape \<Rightarrow> point" where
  "shapeCenter s = \<lparr>px = s_x s + s_w s / 2, py = s_y s + s_h s / 2\<rparr>"

definition ellipse_denom :: "shape \<Rightarrow> point \<Rightarrow> jsnum" where
  "ellipse_denom s toward =
     (let c = shapeCenter s; dx = px toward - px c; dy = py toward - py c;
          a = s_w s / 2; b = s_h s / 2
      in jadd (jdiv (Fin (dx * dx)) (Fin (a * a))) (jdiv (Fin (dy * dy)) (Fin (b * b))))"

definition anchorPoint :: "shape \<Rightarrow> point \<Rightarrow> jpoint" where
  "anchorPoint s toward =
     (let c = shapeCenter s; dx = px toward - px c; dy = py toward - py c in
      if dx = 0 \<and> dy = 0 then fin_point c
      else if s_type s = ''rect'' \<or> s_type s = ''symbol'' then
        (let rx = s_w s / 2; ry = s_h s / 2;
             tx = (if dx = 0 then PInf else jdiv (Fin rx) (Fin \<bar>dx\<bar>));
             ty = (if dy = 0 then PInf else jdiv (Fin ry) (Fin \<bar>dy\<bar>));
             t = jmin tx ty
         in \<lparr>jx = jadd (Fin (px c)) (jmul (Fin dx) t),
             jy = jadd (Fin (py c)) (jmul (Fin dy) t)\<rparr>)
      else if s_type s = ''ellipse'' then
        (let denom = ellipse_denom s toward in
         if jle denom (Fin 0) then fin_point c
         else (let t = jdiv (Fin 1) (jsqrt denom)
               in \<lparr>jx = jadd (Fin (px c)) (jmul (Fin dx) t),
                   jy = jadd (Fin (py c)) (jmul (Fin dy) t)\<rparr>))
      else fin_point c)"

section \<open>Document model\<close>

text \<open>A connector object \<open>{id,src,dst,arrow,stroke,width}\<close>.\<close>

record connector =
  c_id :: int
  c_src :: int
  c_dst :: int
  c_arrow :: string
  c_stroke :: string
  c_width :: int

text \<open>
  The tags \<open>`s:${id}`\<close> and \<open>`c:${id}`\<close> that the renderer writes into \<open>data-id\<close> and
  that the selection holds. A tag is modelled by the number that the source reads
  back from it (\<open>parseInt(tag.slice(2),10)\<close>), which is the projection of the
  constructor. Where the source writes a tag from an id, the model takes the tag to
  read back as that id; this is so for whole numbers below \<open>10\<^sup>2\<^sup>1\<close> in size, and a
  larger or fractional id of a loaded document, which prints with an exponent or a
  point, reads back as another number.
\<close>

datatype tag = ShapeTag int | ConnTag int

text \<open>The preview line of a connect gesture: \<open>x1,y1\<close> come from \<open>anchorPoint\<close>.\<close>

record line =
  l_x1 :: jsnum
  l_y1 :: jsnum
  l_x2 :: real
  l_y2 :: real

record geom =
  g_x :: real
  g_y :: real
  g_w :: real
  g_h :: real

text \<open>
  The drag descriptor \<open>state.drag\<close>, one constructor per \<open>kind\<close>:
  \<open>{kind:'resize', sid, pos, start, orig}\<close>, \<open>{kind:'move', sids, start}\<close>,
  \<open>{kind:'marquee', start}\<close>, \<open>{kind:'create', sid, start}\<close>,
  \<open>{kind:'connect', src, preview}\<close>.
\<close>

datatype drag =
    Resize int string point geom
  | Move "int list" point
  | Marquee point
  | Create int point
  | Connect int line

text \<open>
  The editor state. \<open>selection\<close> is a JavaScript \<open>Set\<close>: a duplicate-free list in
  insertion order. \<open>previewShown\<close> is the one piece of the DOM that the model keeps:
  whether the preview line is a child of the content layer.
\<close>

record state =
  tool :: string
  symbol :: string
  nextId :: int
  shapes :: "shape list"
  connectors :: "connector list"
  selection :: "tag list"
  drag :: "drag option"
  previewShown :: bool

definition initial_state :: state where
  "initial_state = \<lparr>tool = ''select'', symbol = ''pipe'', nextId = 1, shapes = [],
     connectors = [], selection = [], drag = None, previewShown = False\<rparr>"

text \<open>
  The toolbar inputs read by the handlers. \<open>widthInput\<close> is the value of
  \<open>parseInt(widthInput.value,10)\<close>, \<open>None\<close> standing for \<open>NaN\<close>; \<open>promptText\<close>
  is what \<open>prompt\<close> returns, \<open>None\<close> standing for \<open>null\<close>.
\<close>

record ui =
  symbolKindSelect :: string
  fillInput :: string
  strokeInput :: string
  widthInput :: "int option"
  promptText :: "string option"

text \<open>\<open>parseInt(widthInput.value,10)||2\<close>: \<open>NaN\<close> and \<open>0\<close> are falsy.\<close>

definition defaultWidth :: "ui \<Rightarrow> int" where
  "defaultWidth u = (case widthInput u of None \<Rightarrow> 2 | Some n \<Rightarrow> if n = 0 then 2 else n)"

text \<open>
  A pointer event: the document-space point \<open>pt(e)\<close>, the element under the pointer
  and the shift key. The element is a resize grip (a rect carrying
  \<open>data-h = `${s.id}:${pos}`\<close>), an element inside a node carrying \<open>data-id\<close>, or
  anything else.
\<close>

datatype target = Grip int string | Elem tag | Blank

record event =
  e_x :: real
  e_y :: real
  e_target :: target
  shiftKey :: bool

datatype error = TypeError

definition newId :: "state \<Rightarrow> int \<times> state" where
  "newId st = (nextId st, st\<lparr>nextId := nextId st + 1\<rparr>)"

definition pickTag :: "target \<Rightarrow> tag option" where
  "pickTag tg = (case tg of Elem t \<Rightarrow> Some t | _ \<Rightarrow> None)"

text \<open>\<open>state.shapes.find(s=>s.id===sid)\<close>: the first shape with that id.\<close>

definition find_shape :: "int \<Rightarrow> shape list \<Rightarrow> shape option" where
  "find_shape sid shs = List.find (\<lambda>s. s_id s = sid) shs"

text \<open>
  An assignment through the reference that \<open>find\<close> returned changes the first shape
  with that id in place; without such a shape nothing changes.
\<close>

fun update_shape :: "int \<Rightarrow> (shape \<Rightarrow> shape) \<Rightarrow> shape list \<Rightarrow> shape list" where
  "update_shape sid f [] = []"
| "update_shape sid f (s # ss) =
     (if s_id s = sid then f s # ss else s # update_shape sid f ss)"

definition sel_add :: "tag \<Rightarrow> tag list \<Rightarrow> tag list" where
  "sel_add t sel = (if t \<in> set sel then sel else sel @ [t])"

fun shape_ids :: "tag list \<Rightarrow> int list" where
  "shape_ids [] = []"
| "shape_ids (ShapeTag i # ts) = i # shape_ids ts"
| "shape_ids (ConnTag i # ts) = shape_ids ts"

definition selectedShapeIds :: "state \<Rightarrow> int list" where
  "selectedShapeIds st = shape_ids (selection st)"

text \<open>
  \<open>render\<close> rebuilds the content layer from the state, which removes the preview
  line from it, and draws the handles of a sole selected shape; \<open>drawHandles\<close>
  dereferences the result of \<open>find\<close>, so a sole selected id without a shape raises
  after the layer was rebuilt. What is drawn is a function of the state and is not
  modelled.
\<close>

definition render :: "state \<Rightarrow> state \<times> error option" where
  "render st =
     (let st' = st\<lparr>previewShown := False\<rparr> in
      case selectedShapeIds st of
        [sid] \<Rightarrow> (case find_shape sid (shapes st) of
                    None \<Rightarrow> (st', Some TypeError)
                  | Some _ \<Rightarrow> (st', None))
      | _ \<Rightarrow> (st', None))"

text \<open>Statements that follow a call run only if the call did not raise.\<close>

definition and_then ::
  "state \<times> error option \<Rightarrow> (state \<Rightarrow> state \<times> error option) \<Rightarrow> state \<times> error option" where
  "and_then r f = (case r of (st, None) \<Rightarrow> f st | (st, Some x) \<Rightarrow> (st, Some x))"

section \<open>Interaction state machine\<close>

definition onDown :: "ui \<Rightarrow> event \<Rightarrow> state \<Rightarrow> state \<times> error option" where
  "onDown u e st =
     (let x = e_x e; y = e_y e in
      case e_target e of
        Grip sid pos \<Rightarrow>
          (case find_shape sid (shapes st) of
             None \<Rightarrow> (st, None)
           | Some s \<Rightarrow>
               (st\<lparr>drag := Some (Resize (s_id s) pos \<lparr>px = x, py = y\<rparr>
                    \<lparr>g_x = s_x s, g_y = s_y s, g_w = s_w s, g_h = s_h s\<rparr>)\<rparr>, None))
      | _ \<Rightarrow>
          if tool st = ''select'' then
            (case pickTag (e_target e) of
               Some tg \<Rightarrow>
                 (let st1 = st\<lparr>selection := sel_add tg (if shiftKey e then selection st else [])\<rparr>;
                      st2 = (case tg of
                               ShapeTag _ \<Rightarrow>
                                 st1\<lparr>drag := Some (Move (selectedShapeIds st1) \<lparr>px = x, py = y\<rparr>)\<rparr>
                             | ConnTag _ \<Rightarrow> st1)
                  in render st2)
             | None \<Rightarrow> (st\<lparr>drag := Some (Marquee \<lparr>px = x, py = y\<rparr>)\<rparr>, None))
          else if tool st = ''rect'' \<or> tool st = ''ellipse'' \<or> tool st = ''symbol'' then
            (let (i, st1) = newId st;
                 s = \<lparr>s_id = i,
                      s_type = (if tool st = ''symbol'' then ''symbol'' else tool st),
                      s_x = snap x, s_y = snap y, s_w = 1, s_h = 1,
                      s_fill = fillInput u, s_outline = strokeInput u,
                      s_width = defaultWidth u, s_text = '''',
                      s_symbol = Some (symbolKindSelect u)\<rparr>
             in render (st1\<lparr>shapes := shapes st1 @ [s],
                            selection := [ShapeTag (s_id s)],
                            drag := Some (Create (s_id s) \<lparr>px = x, py = y\<rparr>)\<rparr>))
          else if tool st = ''connector'' then
            (case pickTag (e_target e) of
               Some (ShapeTag sid) \<Rightarrow>
                 (st\<lparr>drag := Some (Connect sid \<lparr>l_x1 = Fin x, l_y1 = Fin y, l_x2 = x, l_y2 = y\<rparr>),
                     previewShown := True\<rparr>, None)
             | _ \<Rightarrow> (st, None))
          else if tool st = ''text'' then
            (case pickTag (e_target e) of
               Some (ShapeTag sid) \<Rightarrow>
                 (case find_shape sid (shapes st) of
                    None \<Rightarrow> (st, Some TypeError)
                  | Some _ \<Rightarrow>
                      (case promptText u of
                         None \<Rightarrow> (st, None)
                       | Some t \<Rightarrow>
                           render (st\<lparr>shapes :=
                             update_shape sid (\<lambda>s. s\<lparr>s_text := t\<rparr>) (shapes st)\<rparr>)))
             | _ \<Rightarrow> (st, None))
          else (st, None))"

text \<open>The loop of the move gesture over \<open>state.drag.sids\<close>.\<close>

definition move_shapes :: "real \<Rightarrow> real \<Rightarrow> int list \<Rightarrow> shape list \<Rightarrow> shape list" where
  "move_shapes dx dy sids shs =
     fold (\<lambda>sid. update_shape sid
             (\<lambda>s. s\<lparr>s_x := snap (s_x s + dx), s_y := snap (s_y s + dy)\<rparr>)) sids shs"

text \<open>The geometry a resize step assigns, from the snapshot and the pointer.\<close>

definition resize_geom :: "string \<Rightarrow> geom \<Rightarrow> real \<Rightarrow> real \<Rightarrow> geom" where
  "resize_geom pos orig x y =
     (let ox = g_x orig; oy = g_y orig; ow = g_w orig; oh = g_h orig;
          x1 = snap x; y1 = snap y;
          nx = ox; ny = oy; nw = ow; nh = oh;
          (nx, nw) = (if CHR ''w'' \<in> set pos
                      then (min x1 (ox + ow), \<bar>ox + ow - x1\<bar>) else (nx, nw));
          (nx, nw) = (if CHR ''e'' \<in> set pos
                      then (min ox x1, \<bar>x1 - ox\<bar>) else (nx, nw));
          (ny, nh) = (if CHR ''n'' \<in> set pos
                      then (min y1 (oy + oh), \<bar>oy + oh - y1\<bar>) else (ny, nh));
          (ny, nh) = (if CHR ''s'' \<in> set pos
                      then (min oy y1, \<bar>y1 - oy\<bar>) else (ny, nh))
      in \<lparr>g_x = nx, g_y = ny, g_w = max 1 nw, g_h = max 1 nh\<rparr>)"

definition onMove :: "event \<Rightarrow> state \<Rightarrow> state \<times> error option" where
  "onMove e st =
     (case drag st of
        None \<Rightarrow> (st, None)
      | Some d \<Rightarrow>
          (let x = e_x e; y = e_y e in
           case d of
             Create sid start \<Rightarrow>
               (case find_shape sid (shapes st) of
                  None \<Rightarrow> (st, Some TypeError)
                | Some _ \<Rightarrow>
                    (let x0 = px start; y0 = py start; x1 = snap x; y1 = snap y
                     in render (st\<lparr>shapes := update_shape sid
                          (\<lambda>s. s\<lparr>s_x := min x0 x1, s_y := min y0 y1,
                                  s_w := max 1 \<bar>x1 - x0\<bar>, s_h := max 1 \<bar>y1 - y0\<bar>\<rparr>)
                          (shapes st)\<rparr>)))
           | Move sids start \<Rightarrow>
               (let dx = x - px start; dy = y - py start
                in render (st\<lparr>shapes := move_shapes dx dy sids (shapes st),
                              drag := Some (Move sids \<lparr>px = x, py = y\<rparr>)\<rparr>))
           | Resize sid pos start orig \<Rightarrow>
               (case find_shape sid (shapes st) of
                  None \<Rightarrow> (st, None)
                | Some _ \<Rightarrow>
                    (let g = resize_geom pos orig x y
                     in render (st\<lparr>shapes := update_shape sid
                          (\<lambda>s. s\<lparr>s_x := g_x g, s_y := g_y g, s_w := g_w g, s_h := g_h g\<rparr>)
                          (shapes st)\<rparr>)))
           | Connect src pv \<Rightarrow>
               (case find_shape src (shapes st) of
                  None \<Rightarrow> (st, None)
                | Some s \<Rightarrow>
                    (let ap = anchorPoint s \<lparr>px = x, py = y\<rparr>
                     in (st\<lparr>drag := Some (Connect src
                            \<lparr>l_x1 = jx ap, l_y1 = jy ap, l_x2 = x, l_y2 = y\<rparr>)\<rparr>, None)))
           | Marquee start \<Rightarrow> (st, None)))"

text \<open>The test of \<open>applyMarquee\<close> on a shape and on the two anchors of a connector.\<close>

definition shape_in_marquee :: "real \<Rightarrow> real \<Rightarrow> real \<Rightarrow> real \<Rightarrow> shape \<Rightarrow> bool" where
  "shape_in_marquee left right top_y bottom_y s =
     (left \<le> s_x s \<and> right \<ge> s_x s + s_w s \<and> top_y \<le> s_y s \<and> bottom_y \<ge> s_y s + s_h s)"

definition connector_in_marquee ::
  "real \<Rightarrow> real \<Rightarrow> real \<Rightarrow> real \<Rightarrow> shape list \<Rightarrow> connector \<Rightarrow> bool" where
  "connector_in_marquee left right top_y bottom_y shs c =
     (case find_shape (c_src c) shs of
        None \<Rightarrow> False
      | Some s1 \<Rightarrow>
          (case find_shape (c_dst c) shs of
             None \<Rightarrow> False
           | Some s2 \<Rightarrow>
               (let p1 = anchorPoint s1 (shapeCenter s2);
                    p2 = anchorPoint s2 (shapeCenter s1);
                    lx = jmin (jx p1) (jx p2); rx = jmax (jx p1) (jx p2);
                    ty = jmin (jy p1) (jy p2); by = jmax (jy p1) (jy p2)
                in jle (Fin left) lx \<and> jle rx (Fin right)
                   \<and> jle (Fin top_y) ty \<and> jle by (Fin bottom_y))))"

definition applyMarquee :: "real \<Rightarrow> real \<Rightarrow> real \<Rightarrow> real \<Rightarrow> bool \<Rightarrow> state \<Rightarrow> state" where
  "applyMarquee x0 y0 x1 y1 add st =
     (let sel0 = (if \<not> add then [] else selection st);
          left = min x0 x1; right = max x0 x1; top_y = min y0 y1; bottom_y = max y0 y1;
          sel1 = fold (\<lambda>s sel. if shape_in_marquee left right top_y bottom_y s
                               then sel_add (ShapeTag (s_id s)) sel else sel)
                   (shapes st) sel0;
          sel2 = fold (\<lambda>c sel. if connector_in_marquee left right top_y bottom_y (shapes st) c
                               then sel_add (ConnTag (c_id c)) sel else sel)
                   (connectors st) sel1
      in st\<lparr>selection := sel2\<rparr>)"

definition onUp :: "ui \<Rightarrow> event \<Rightarrow> state \<Rightarrow> state \<times> error option" where
  "onUp u e st =
     (case drag st of
        None \<Rightarrow> (st, None)
      | Some d \<Rightarrow>
          (let x = e_x e; y = e_y e in
           case d of
             Connect src pv \<Rightarrow>
               (let st1 = (case pickTag (e_target e) of
                             Some (ShapeTag dst) \<Rightarrow>
                               if dst \<noteq> src then
                                 (let (i, st') = newId st
                                  in st'\<lparr>connectors := connectors st' @
                                       [\<lparr>c_id = i, c_src = src, c_dst = dst, c_arrow = ''last'',
                                         c_stroke = strokeInput u, c_width = defaultWidth u\<rparr>]\<rparr>)
                               else st
                           | _ \<Rightarrow> st)
                in and_then (render (st1\<lparr>previewShown := False\<rparr>))
                     (\<lambda>st2. (st2\<lparr>drag := None\<rparr>, None)))
           | Marquee start \<Rightarrow>
               and_then (render (applyMarquee (px start) (py start) x y (shiftKey e) st))
                 (\<lambda>st2. (st2\<lparr>drag := None\<rparr>, None))
           | _ \<Rightarrow> (st\<lparr>drag := None\<rparr>, None)))"

text \<open>
  A run of the machine: clicks on the tool buttons (\<open>state.tool = btn.getAttribute('data-tool')\<close>)
  and pointer events. An exception that escapes a handler is reported by the
  browser and the next event is handled on the state as the handler left it.
\<close>

datatype input = ToolClick string | PointerDown ui event | PointerMove event | PointerUp ui event

fun step :: "input \<Rightarrow> state \<Rightarrow> state" where
  "step (ToolClick t) st = st\<lparr>tool := t\<rparr>"
| "step (PointerDown u e) st = fst (onDown u e st)"
| "step (PointerMove e) st = fst (onMove e st)"
| "step (PointerUp u e) st = fst (onUp u e st)"

definition run :: "input list \<Rightarrow> state \<Rightarrow> state" where
  "run ins st = fold step ins st"

section \<open>Documents\<close>

text \<open>
  A parsed document. Each key may be missing. \<open>d_settings\<close> holds
  \<open>default_fill\<close>, \<open>default_outline\<close> and \<open>default_width\<close>.
\<close>

record document =
  d_shapes :: "shape list option"
  d_connectors :: "connector list option"
  d_next_id :: "int option"
  d_nextId :: "int option"
  d_settings :: "(string \<times> string \<times> int) option"

text \<open>The left operand of \<open>||\<close> is taken unless it is missing or \<open>0\<close>.\<close>

definition or_else :: "int option \<Rightarrow> int \<Rightarrow> int" where
  "or_else a b = (case a of None \<Rightarrow> b | Some n \<Rightarrow> if n = 0 then b else n)"

text \<open>\<open>Math.max(1, ...state.shapes.map(s=>s.id), ...state.connectors.map(c=>c.id))\<close>.\<close>

definition max_id :: "shape list \<Rightarrow> connector list \<Rightarrow> int" where
  "max_id shs cs = fold max (map s_id shs @ map c_id cs) 1"

text \<open>
  The handler of the file input, on the result of \<open>JSON.parse\<close>; \<open>None\<close> is a text
  that does not parse, which the handler reports and otherwise ignores.
\<close>

definition load_document :: "document option \<Rightarrow> state \<Rightarrow> state" where
  "load_document data st =
     (case data of
        None \<Rightarrow> st
      | Some d \<Rightarrow>
          (let shs = (case d_shapes d of None \<Rightarrow> [] | Some l \<Rightarrow> l);
               cs = (case d_connectors d of None \<Rightarrow> [] | Some l \<Rightarrow> l);
               st1 = st\<lparr>shapes := shs, connectors := cs,
                        nextId := or_else (d_next_id d) (or_else (d_nextId d) (max_id shs cs + 1)),
                        selection := []\<rparr>
           in fst (render st1)))"





definition serialize :: "ui \<Rightarrow> state \<Rightarrow> document" where
  "serialize u st =
     \<lparr>d_shapes = Some (shapes st), d_connectors = Some (connectors st),
      d_next_id = Some (nextId st), d_nextId = None,
      d_settings = Some (fillInput u, strokeInput u, defaultWidth u)\<rparr>"

section \<open>Predicates of the properties\<close>

text \<open>
  Position on the grid, and size on the grid or at the minimum size 1 that
  \<open>Math.max(1, ...)\<close> enforces.
\<close>

definition on_grid :: "shape \<Rightarrow> bool" where
  "on_grid s = (grid_aligned (s_x s) \<and> grid_aligned (s_y s)
      \<and> (grid_aligned (s_w s) \<or> s_w s = 1) \<and> (grid_aligned (s_h s) \<or> s_h s = 1)
      \<and> 1 \<le> s_w s \<and> 1 \<le> s_h s)"

definition geom_aligned :: "geom \<Rightarrow> bool" where
  "geom_aligned g = (grid_aligned (g_x g) \<and> grid_aligned (g_y g)
      \<and> grid_aligned (g_w g) \<and> grid_aligned (g_h g))"

definition geometry :: "shape \<Rightarrow> real \<times> real \<times> real \<times> real" where
  "geometry s = (s_x s, s_y s, s_w s, s_h s)"

text \<open>
  Containment in the closed rectangle of the marquee: of a point, and of the four
  corners of the bounding rectangle of a shape.
\<close>

definition point_within :: "real \<Rightarrow> real \<Rightarrow> real \<Rightarrow> real \<Rightarrow> jpoint \<Rightarrow> bool" where
  "point_within left right top_y bottom_y p =
     (jle (Fin left) (jx p) \<and> jle (jx p) (Fin right)
      \<and> jle (Fin top_y) (jy p) \<and> jle (jy p) (Fin bottom_y))"

definition corners :: "shape \<Rightarrow> point list" where
  "corners s =
     [\<lparr>px = s_x s, py = s_y s\<rparr>, \<lparr>px = s_x s + s_w s, py = s_y s\<rparr>,
      \<lparr>px = s_x s, py = s_y s + s_h s\<rparr>, \<lparr>px = s_x s + s_w s, py = s_y s + s_h s\<rparr>]"

definition bbox_within :: "real \<Rightarrow> real \<Rightarrow> real \<Rightarrow> real \<Rightarrow> shape \<Rightarrow> bool" where
  "bbox_within left right top_y bottom_y s =
     list_all (\<lambda>p. point_within left right top_y bottom_y (fin_point p)) (corners s)"

text \<open>The two rendered endpoints of a connector, when both of its shapes exist.\<close>

definition endpoints :: "shape list \<Rightarrow> connector \<Rightarrow> (jpoint \<times> jpoint) option" where
  "endpoints shs c =
     (case find_shape (c_src c) shs of
        None \<Rightarrow> None
      | Some s1 \<Rightarrow>
          (case find_shape (c_dst c) shs of
             None \<Rightarrow> None
           | Some s2 \<Rightarrow>
               Some (anchorPoint s1 (shapeCenter s2), anchorPoint s2 (shapeCenter s1))))"

definition endpoints_within ::
  "real \<Rightarrow> real \<Rightarrow> real \<Rightarrow> real \<Rightarrow> shape list \<Rightarrow> connector \<Rightarrow> bool" where
  "endpoints_within left right top_y bottom_y shs c =
     (case endpoints shs c of
        None \<Rightarrow> False
      | Some (p1, p2) \<Rightarrow>
          point_within left right top_y bottom_y p1 \<and> point_within left right top_y bottom_y p2)"

text \<open>The ids in use, and what the shared counter maintains about them.\<close>

definition ids_of :: "state \<Rightarrow> int list" where
  "ids_of st = map s_id (shapes st) @ map c_id (connectors st)"

definition ids_inv :: "state \<Rightarrow> bool" where
  "ids_inv st = (distinct (ids_of st) \<and> list_all (\<lambda>i. i < nextId st) (ids_of st))"

text \<open>What a handler can do to the ids and to the counter.\<close>

definition same_ids :: "state \<Rightarrow> state \<Rightarrow> bool" where
  "same_ids st st' = (map s_id (shapes st') = map s_id (shapes st)
      \<and> map c_id (connectors st') = map c_id (connectors st) \<and> nextId st' = nextId st)"

definition new_shape_id :: "state \<Rightarrow> state \<Rightarrow> bool" where
  "new_shape_id st st' = (map s_id (shapes st') = map s_id (shapes st) @ [nextId st]
      \<and> map c_id (connectors st') = map c_id (connectors st) \<and> nextId st' = nextId st + 1)"

definition new_connector_id :: "state \<Rightarrow> state \<Rightarrow> bool" where
  "new_connector_id st st' = (map s_id (shapes st') = map s_id (shapes st)
      \<and> map c_id (connectors st') = map c_id (connectors st) @ [nextId st]
      \<and> nextId st' = nextId st + 1)"

text \<open>The ids a step has added.\<close>

definition fresh_ids :: "state \<Rightarrow> state \<Rightarrow> int list" where
  "fresh_ids st st' = filter (\<lambda>j. j \<notin> set (ids_of st)) (ids_of st')"

text \<open>A shape object that has the key \<open>symbol\<close>.\<close>

definition has_symbol :: "shape \<Rightarrow> bool" where
  "has_symbol s = (s_symbol s \<noteq> None)"




text \<open>
  The selection names only shapes that exist. A press is over a rendered element
  when the tag of a pressed shape reads back as the id of a shape of the state, as
  the tag does that \<open>render\<close> wrote from an id that is a whole number below
  \<open>10\<^sup>2\<^sup>1\<close> in size; a run all of whose presses are is a run over rendered
  elements.
\<close>

definition sel_ok :: "state \<Rightarrow> bool" where
  "sel_ok st = list_all (\<lambda>i. i \<in> set (map s_id (shapes st))) (selectedShapeIds st)"

fun target_ok :: "state \<Rightarrow> target \<Rightarrow> bool" where
  "target_ok st (Elem (ShapeTag i)) = (i \<in> set (map s_id (shapes st)))"
| "target_ok st _ = True"

fun input_ok :: "state \<Rightarrow> input \<Rightarrow> bool" where
  "input_ok st (PointerDown u e) = target_ok st (e_target e)"
| "input_ok st _ = True"

fun rendered_run :: "input list \<Rightarrow> state \<Rightarrow> bool" where
  "rendered_run [] st = True"
| "rendered_run (i # ins) st = (input_ok st i \<and> rendered_run ins (step i st))"




section \<open>Example data\<close>

text \<open>
  A rectangle of width 100 and height 50 centred at \<open>(50,25)\<close>, an ellipse with
  semi-axes 50 and 25 centred at the origin, and a rectangle \<open>(200,0)-(300,100)\<close>.
\<close>

definition rect_100_50 :: shape where
  "rect_100_50 = \<lparr>s_id = 1, s_type = ''rect'', s_x = 0, s_y = 0, s_w = 100, s_h = 50,
     s_fill = ''#ffffff'', s_outline = ''#000000'', s_width = 2, s_text = '''',
     s_symbol = Some ''pipe''\<rparr>"

definition ellipse_50_25 :: shape where
  "ellipse_50_25 = \<lparr>s_id = 2, s_type = ''ellipse'', s_x = - 50, s_y = - 25, s_w = 100,
     s_h = 50, s_fill = ''#ffffff'', s_outline = ''#000000'', s_width = 2, s_text = '''',
     s_symbol = Some ''pipe''\<rparr>"

definition rect_200_0 :: shape where
  "rect_200_0 = \<lparr>s_id = 2, s_type = ''rect'', s_x = 200, s_y = 0, s_w = 100, s_h = 100,
     s_fill = ''#ffffff'', s_outline = ''#000000'', s_width = 2, s_text = '''',
     s_symbol = Some ''pipe''\<rparr>"

text \<open>Toolbar inputs, a pointer event without the shift key, a document without any key.\<close>

definition ui0 :: ui where
  "ui0 = \<lparr>symbolKindSelect = ''pipe'', fillInput = ''#ffffff'', strokeInput = ''#000000'',
     widthInput = Some 2, promptText = None\<rparr>"

definition pointer :: "real \<Rightarrow> real \<Rightarrow> target \<Rightarrow> event" where
  "pointer x y tg = \<lparr>e_x = x, e_y = y, e_target = tg, shiftKey = False\<rparr>"

definition empty_document :: document where
  "empty_document = \<lparr>d_shapes = None, d_connectors = None, d_next_id = None,
     d_nextId = None, d_settings = None\<rparr>"

text \<open>
  Runs with the rectangle tool: a press at \<open>(47,33)\<close>; a press at the grid point
  \<open>(0,0)\<close>, followed by a move to \<open>(97,43)\<close> or to \<open>(5,43)\<close>; the press at
  \<open>(47,33)\<close> followed by a move to \<open>(97,43)\<close>.
\<close>

definition draw_rect :: "input list" where
  "draw_rect = [ToolClick ''rect'', PointerDown ui0 (pointer 47 33 Blank)]"

definition press_origin :: "input list" where
  "press_origin = [ToolClick ''rect'', PointerDown ui0 (pointer 0 0 Blank)]"

definition drag_wide :: "input list" where
  "drag_wide = press_origin @ [PointerMove (pointer 97 43 Blank)]"

definition drag_thin :: "input list" where
  "drag_thin = press_origin @ [PointerMove (pointer 5 43 Blank)]"

definition drag_off_grid :: "input list" where
  "drag_off_grid = draw_rect @ [PointerMove (pointer 97 43 Blank)]"


definition marquee_state :: state where
  "marquee_state = \<lparr>tool = ''select'', symbol = ''pipe'', nextId = 4,
     shapes = [rect_100_50, rect_200_0],
     connectors = [\<lparr>c_id = 3, c_src = 1, c_dst = 2, c_arrow = ''last'',
                    c_stroke = ''#000000'', c_width = 2\<rparr>],
     selection = [], drag = Some (Marquee \<lparr>px = 0, py = 0\<rparr>), previewShown = False\<rparr>"

text \<open>
  An ellipse of width zero and height 50 at the origin, as a loaded document can
  hold it; its centre is \<open>(0,25)\<close>.
\<close>

definition flat_ellipse :: shape where
  "flat_ellipse = \<lparr>s_id = 3, s_type = ''ellipse'', s_x = 0, s_y = 0, s_w = 0, s_h = 50,
     s_fill = ''#ffffff'', s_outline = ''#000000'', s_width = 2, s_text = '''',
     s_symbol = None\<rparr>"

text \<open>
  Documents without \<open>next_id\<close>: one with two shapes and a connector, and one whose
  only key is \<open>nextId\<close>; and a document whose only key is \<open>next_id\<close>.
\<close>

definition document_123 :: document where
  "document_123 = \<lparr>d_shapes = Some [rect_100_50, rect_200_0],
     d_connectors = Some [\<lparr>c_id = 3, c_src = 1, c_dst = 2, c_arrow = ''last'',
                           c_stroke = ''#000000'', c_width = 2\<rparr>],
     d_next_id = None, d_nextId = None, d_settings = None\<rparr>"

definition document_camel :: document where
  "document_camel = \<lparr>d_shapes = None, d_connectors = None, d_next_id = None,
     d_nextId = Some 7, d_settings = None\<rparr>"

definition document_snake :: document where
  "document_snake = \<lparr>d_shapes = None, d_connectors = None, d_next_id = Some 9,
     d_nextId = Some 7, d_settings = None\<rparr>"




section \<open>Properties of the geometry kernel\<close>

subsection \<open>Grid snapping\<close>

lemma math_round_of_int: "math_round (real_of_int k) = k"
  unfolding math_round_def by linarith

lemma snap_of_multiple: "snap (real_of_int k * gridSize) = real_of_int k * gridSize"
  by (simp add: snap_def gridSize_def math_round_of_int)

lemma snap_idem: "snap (snap v) = snap v"
proof -
  have "snap v = real_of_int (math_round (v / gridSize)) * gridSize"
    by (simp add: snap_def)
  then show ?thesis
    by (simp add: snap_of_multiple)
qed

lemma grid_aligned_iff: "grid_aligned v \<longleftrightarrow> (\<exists>k::int. v = real_of_int k * gridSize)"
proof
  assume "grid_aligned v"
  then show "\<exists>k::int. v = real_of_int k * gridSize"
    unfolding grid_aligned_def by metis
next
  assume "\<exists>k::int. v = real_of_int k * gridSize"
  then obtain k :: int where "v = real_of_int k * gridSize" ..
  then show "grid_aligned v"
    by (simp add: grid_aligned_def gridSize_def)
qed

lemma snap_aligned: "grid_aligned (snap v)"
  unfolding grid_aligned_iff snap_def by blast

lemma snap_nearest: "\<bar>snap v - v\<bar> \<le> \<bar>real_of_int k * gridSize - v\<bar>"
proof -
  define m where "m = math_round (v / gridSize)"
  have m: "real_of_int m \<le> v / 20 + 1 / 2" "v / 20 + 1 / 2 < real_of_int m + 1"
    unfolding m_def math_round_def gridSize_def by linarith+
  have "k \<le> m - 1 \<or> k = m \<or> k \<ge> m + 1" by linarith
  then have "\<bar>real_of_int m * 20 - v\<bar> \<le> \<bar>real_of_int k * 20 - v\<bar>"
  proof (elim disjE)
    assume "k \<le> m - 1"
    then have "real_of_int k \<le> real_of_int m - 1" by linarith
    with m show ?thesis by linarith
  next
    assume "k = m" then show ?thesis by simp
  next
    assume "k \<ge> m + 1"
    then have "real_of_int k \<ge> real_of_int m + 1" by linarith
    with m show ?thesis by linarith
  qed
  then show ?thesis by (simp add: snap_def m_def gridSize_def)
qed

lemma snap_27: "snap 27 = 20"
  by (simp add: snap_def gridSize_def math_round_def)

lemma snap_35: "snap 35 = 40"
  by (simp add: snap_def gridSize_def math_round_def)

text \<open>
  C8. \<open>snap\<close> is idempotent on every real value; its result is a multiple of the grid
  unit and no multiple of the grid unit is nearer to the argument; with the grid unit
  20, \<open>snap(27) = 20\<close> and \<open>snap(35) = 40\<close>.
\<close>

theorem snap_idempotent_nearest:
  "snap (snap v) = snap v
   \<and> grid_aligned (snap v)
   \<and> (\<forall>k::int. \<bar>snap v - v\<bar> \<le> \<bar>real_of_int k * gridSize - v\<bar>)
   \<and> gridSize = 20 \<and> snap 27 = 20 \<and> snap 35 = 40"
  using snap_idem snap_aligned snap_nearest snap_27 snap_35
  by (simp add: gridSize_def)

theorem snap_idempotent_nearest_witness:
  "snap (snap 27) = 20 \<and> grid_aligned (snap 27) \<and> \<bar>snap 27 - 27\<bar> \<le> \<bar>real_of_int 2 * gridSize - 27\<bar>"
proof -
  note t = snap_idempotent_nearest [of 27]
  have a: "snap (snap 27) = snap 27" and b: "grid_aligned (snap 27)"
    and c: "\<forall>k::int. \<bar>snap 27 - 27\<bar> \<le> \<bar>real_of_int k * gridSize - 27\<bar>"
    and d: "snap 27 = 20"
    using t by blast+
  from c have "\<bar>snap 27 - 27\<bar> \<le> \<bar>real_of_int 2 * gridSize - 27\<bar>" by blast
  with a b d show ?thesis by simp
qed

subsection \<open>Anchor points\<close>

lemma center_diff:
  "toward \<noteq> shapeCenter s \<longleftrightarrow>
     px toward - px (shapeCenter s) \<noteq> 0 \<or> py toward - py (shapeCenter s) \<noteq> 0"
  by (auto intro: point.equality)

lemma anchor_at_center: "anchorPoint s (shapeCenter s) = fin_point (shapeCenter s)"
  by (simp add: anchorPoint_def)

lemma anchor_denom_guard:
  assumes "s_type s = ''ellipse''" and "jle (ellipse_denom s toward) (Fin 0)"
  shows "anchorPoint s toward = fin_point (shapeCenter s)"
  using assms by (simp add: anchorPoint_def Let_def)

lemma anchor_rect_formula:
  assumes "s_type s = ''rect'' \<or> s_type s = ''symbol''"
    and "toward \<noteq> shapeCenter s"
  shows "anchorPoint s toward =
     (let c = shapeCenter s; dx = px toward - px c; dy = py toward - py c;
          hw = s_w s / 2; hh = s_h s / 2;
          t = (if dx = 0 then hh / \<bar>dy\<bar>
               else if dy = 0 then hw / \<bar>dx\<bar>
               else min (hw / \<bar>dx\<bar>) (hh / \<bar>dy\<bar>))
      in \<lparr>jx = Fin (px c + dx * t), jy = Fin (py c + dy * t)\<rparr>)"
  using assms unfolding center_diff
  by (auto simp add: anchorPoint_def Let_def min_def)

lemma ellipse_denom_fin:
  assumes "s_w s \<noteq> 0" "s_h s \<noteq> 0"
  shows "ellipse_denom s toward =
     Fin ((px toward - px (shapeCenter s))\<^sup>2 / (s_w s / 2)\<^sup>2
        + (py toward - py (shapeCenter s))\<^sup>2 / (s_h s / 2)\<^sup>2)"
  using assms by (simp add: ellipse_denom_def Let_def power2_eq_square)

lemma denom_pos:
  fixes dx dy a b :: real
  assumes "a \<noteq> 0" "b \<noteq> 0" "dx \<noteq> 0 \<or> dy \<noteq> 0"
  shows "0 < dx\<^sup>2 / a\<^sup>2 + dy\<^sup>2 / b\<^sup>2"
proof -
  have "0 \<le> dx\<^sup>2 / a\<^sup>2" "0 \<le> dy\<^sup>2 / b\<^sup>2" by simp_all
  moreover have "0 < dx\<^sup>2 / a\<^sup>2 \<or> 0 < dy\<^sup>2 / b\<^sup>2"
    using assms by (auto simp: zero_less_divide_iff)
  ultimately show ?thesis by linarith
qed

lemma anchor_ellipse_real:
  assumes "s_type s = ''ellipse''" and "toward \<noteq> shapeCenter s"
    and "s_w s \<noteq> 0" and "s_h s \<noteq> 0"
  shows "(let c = shapeCenter s; dx = px toward - px c; dy = py toward - py c;
          a = s_w s / 2; b = s_h s / 2;
          d = dx\<^sup>2 / a\<^sup>2 + dy\<^sup>2 / b\<^sup>2; t = 1 / sqrt d
      in 0 < d \<and> anchorPoint s toward = \<lparr>jx = Fin (px c + dx * t), jy = Fin (py c + dy * t)\<rparr>)"
proof -
  let ?dx = "px toward - px (shapeCenter s)"
  let ?dy = "py toward - py (shapeCenter s)"
  let ?d = "?dx\<^sup>2 / (s_w s / 2)\<^sup>2 + ?dy\<^sup>2 / (s_h s / 2)\<^sup>2"
  have nz: "?dx \<noteq> 0 \<or> ?dy \<noteq> 0"
    using assms(2) unfolding center_diff .
  have pos: "0 < ?d"
    using assms(3,4) nz by (intro denom_pos) simp_all
  have den: "ellipse_denom s toward = Fin ?d"
    using assms(3,4) by (rule ellipse_denom_fin)
  have sq: "sqrt ?d \<noteq> 0" "\<not> sqrt ?d < 0" "\<not> ?d < 0" "\<not> ?d \<le> 0"
    using pos by simp_all
  have "anchorPoint s toward =
      \<lparr>jx = Fin (px (shapeCenter s) + ?dx * (1 / sqrt ?d)),
       jy = Fin (py (shapeCenter s) + ?dy * (1 / sqrt ?d))\<rparr>"
    unfolding anchorPoint_def Let_def den using assms(1) nz sq
    by (auto simp del: real_sqrt_eq_zero_cancel_iff real_sqrt_lt_0_iff)
  with pos show ?thesis
    unfolding Let_def by simp
qed

lemma anchor_ellipse_js:
  assumes "s_type s = ''ellipse''" and "toward \<noteq> shapeCenter s"
  shows "anchorPoint s toward =
     (let c = shapeCenter s; dx = px toward - px c; dy = py toward - py c;
          denom = ellipse_denom s toward; t = jdiv (Fin 1) (jsqrt denom)
      in if jle denom (Fin 0) then fin_point c
         else \<lparr>jx = jadd (Fin (px c)) (jmul (Fin dx) t),
               jy = jadd (Fin (py c)) (jmul (Fin dy) t)\<rparr>)"
  using assms unfolding center_diff
  by (auto simp add: anchorPoint_def Let_def)

text \<open>
  An ellipse of width zero, which only a loaded document can hold, asked for a point
  straight above or below its centre: the source divides zero by zero, the guard on
  \<open>denom\<close> does not fire and the answer is not a number.
\<close>

lemma anchor_zero_width_ellipse:
  assumes "s_type s = ''ellipse''" and "s_w s = 0"
    and "px toward = px (shapeCenter s)" and "py toward \<noteq> py (shapeCenter s)"
  shows "anchorPoint s toward = \<lparr>jx = NaN, jy = NaN\<rparr>"
  using assms by (simp add: anchorPoint_def ellipse_denom_def Let_def)

lemma ellipse_50_25_center: "shapeCenter ellipse_50_25 = \<lparr>px = 0, py = 0\<rparr>"
  by (simp add: shapeCenter_def ellipse_50_25_def)

lemma ellipse_vertical:
  assumes "ty \<noteq> 0"
  shows "anchorPoint ellipse_50_25 \<lparr>px = 0, py = ty\<rparr> =
         \<lparr>jx = Fin 0, jy = Fin (if ty < 0 then - 25 else 25)\<rparr>"
proof -
  note c = ellipse_50_25_center
  have f: "s_type ellipse_50_25 = ''ellipse''" "s_w ellipse_50_25 = 100" "s_h ellipse_50_25 = 50"
    by (simp_all add: ellipse_50_25_def)
  have s: "sqrt (ty\<^sup>2 / 625) = \<bar>ty\<bar> / 25"
    using real_sqrt_divide[of "ty\<^sup>2" "25\<^sup>2"] by simp
  have "\<lparr>px = 0, py = ty\<rparr> \<noteq> shapeCenter ellipse_50_25"
    using assms by (simp add: c)
  from anchor_ellipse_real[OF f(1) this]
  show ?thesis using assms
    by (simp add: c f Let_def s)
qed

text \<open>
  C1. For a shape of type \<open>rect\<close> or \<open>symbol\<close> and a point other than its centre,
  \<open>anchorPoint\<close> is the centre plus \<open>(dx, dy) * t\<close>, where \<open>(dx, dy)\<close> leads from the
  centre to the point and \<open>t\<close> is the smaller of \<open>halfWidth/|dx|\<close> and \<open>halfHeight/|dy|\<close>,
  a zero component putting no bound on \<open>t\<close>.
\<close>

theorem anchorPoint_rect_symbol:
  assumes "s_type s = ''rect'' \<or> s_type s = ''symbol''"
    and "toward \<noteq> shapeCenter s"
  shows "anchorPoint s toward =
     (let c = shapeCenter s; dx = px toward - px c; dy = py toward - py c;
          halfWidth = s_w s / 2; halfHeight = s_h s / 2;
          t = (if dx = 0 then halfHeight / \<bar>dy\<bar>
               else if dy = 0 then halfWidth / \<bar>dx\<bar>
               else min (halfWidth / \<bar>dx\<bar>) (halfHeight / \<bar>dy\<bar>))
      in \<lparr>jx = Fin (px c + dx * t), jy = Fin (py c + dy * t)\<rparr>)"
  using assms by (rule anchor_rect_formula)

text \<open>
  The rectangle of width 100 and height 50 centred at \<open>(50,25)\<close>, asked for the point
  \<open>(200,25)\<close> straight to its right, answers \<open>(100,25)\<close>.
\<close>

theorem anchorPoint_rect_symbol_witness:
  "s_type rect_100_50 = ''rect''
   \<and> s_w rect_100_50 = 100 \<and> s_h rect_100_50 = 50
   \<and> shapeCenter rect_100_50 = \<lparr>px = 50, py = 25\<rparr>
   \<and> \<lparr>px = 200, py = 25\<rparr> \<noteq> shapeCenter rect_100_50
   \<and> anchorPoint rect_100_50 \<lparr>px = 200, py = 25\<rparr> = \<lparr>jx = Fin 100, jy = Fin 25\<rparr>"
  using anchorPoint_rect_symbol [of rect_100_50 "\<lparr>px = 200, py = 25\<rparr>"]
  by (simp add: rect_100_50_def shapeCenter_def)

text \<open>
  C2. For a shape of type \<open>ellipse\<close> and a point other than its centre,
  \<open>anchorPoint\<close> is the centre when \<open>denom = dx\<^sup>2/a\<^sup>2 + dy\<^sup>2/b\<^sup>2\<close> is at most zero and
  the centre plus \<open>(dx, dy) * (1 / sqrt denom)\<close> otherwise, in the arithmetic of the
  source; when width and height are not zero, \<open>denom\<close> is positive and the result is
  that of the formula over the reals. The ellipse with \<open>a = 50\<close>, \<open>b = 25\<close> centred at
  the origin answers \<open>(0,25)\<close> for every point \<open>(0,k)\<close> with \<open>k > 0\<close>, the direction of
  its vertex \<open>(0,25)\<close>, and \<open>(0,-25)\<close> for every point in the opposite direction.
\<close>

theorem anchorPoint_ellipse:
  assumes "s_type s = ''ellipse''" and "toward \<noteq> shapeCenter s"
  shows "anchorPoint s toward =
           (let c = shapeCenter s; dx = px toward - px c; dy = py toward - py c;
                denom = ellipse_denom s toward; t = jdiv (Fin 1) (jsqrt denom)
            in if jle denom (Fin 0) then fin_point c
               else \<lparr>jx = jadd (Fin (px c)) (jmul (Fin dx) t),
                     jy = jadd (Fin (py c)) (jmul (Fin dy) t)\<rparr>)
         \<and> (s_w s \<noteq> 0 \<and> s_h s \<noteq> 0 \<longrightarrow>
             (let c = shapeCenter s; dx = px toward - px c; dy = py toward - py c;
                  a = s_w s / 2; b = s_h s / 2;
                  d = dx\<^sup>2 / a\<^sup>2 + dy\<^sup>2 / b\<^sup>2; t = 1 / sqrt d
              in 0 < d \<and> anchorPoint s toward =
                   \<lparr>jx = Fin (px c + dx * t), jy = Fin (py c + dy * t)\<rparr>))
         \<and> (\<forall>ty. ty < 0 \<longrightarrow>
               anchorPoint ellipse_50_25 \<lparr>px = 0, py = ty\<rparr> = \<lparr>jx = Fin 0, jy = Fin (- 25)\<rparr>)
         \<and> (\<forall>ty. 0 < ty \<longrightarrow>
               anchorPoint ellipse_50_25 \<lparr>px = 0, py = ty\<rparr> = \<lparr>jx = Fin 0, jy = Fin 25\<rparr>)"
proof (intro conjI allI impI)
  show "anchorPoint s toward =
           (let c = shapeCenter s; dx = px toward - px c; dy = py toward - py c;
                denom = ellipse_denom s toward; t = jdiv (Fin 1) (jsqrt denom)
            in if jle denom (Fin 0) then fin_point c
               else \<lparr>jx = jadd (Fin (px c)) (jmul (Fin dx) t),
                     jy = jadd (Fin (py c)) (jmul (Fin dy) t)\<rparr>)"
    using assms by (rule anchor_ellipse_js)
next
  assume "s_w s \<noteq> 0 \<and> s_h s \<noteq> 0"
  then show "(let c = shapeCenter s; dx = px toward - px c; dy = py toward - py c;
                  a = s_w s / 2; b = s_h s / 2;
                  d = dx\<^sup>2 / a\<^sup>2 + dy\<^sup>2 / b\<^sup>2; t = 1 / sqrt d
              in 0 < d \<and> anchorPoint s toward =
                   \<lparr>jx = Fin (px c + dx * t), jy = Fin (py c + dy * t)\<rparr>)"
    using anchor_ellipse_real [OF assms] by simp
next
  fix ty :: real assume "ty < 0"
  then show "anchorPoint ellipse_50_25 \<lparr>px = 0, py = ty\<rparr> = \<lparr>jx = Fin 0, jy = Fin (- 25)\<rparr>"
    using ellipse_vertical [of ty] by simp
next
  fix ty :: real assume "0 < ty"
  then show "anchorPoint ellipse_50_25 \<lparr>px = 0, py = ty\<rparr> = \<lparr>jx = Fin 0, jy = Fin 25\<rparr>"
    using ellipse_vertical [of ty] by simp
qed

text \<open>
  The ellipse with \<open>a = 50\<close>, \<open>b = 25\<close> centred at the origin, asked for the point
  \<open>(0,100)\<close>, answers \<open>(0,25)\<close>.
\<close>

theorem anchorPoint_ellipse_witness:
  "s_type ellipse_50_25 = ''ellipse''
   \<and> shapeCenter ellipse_50_25 = \<lparr>px = 0, py = 0\<rparr>
   \<and> \<lparr>px = 0, py = 100\<rparr> \<noteq> shapeCenter ellipse_50_25
   \<and> s_w ellipse_50_25 / 2 = 50 \<and> s_h ellipse_50_25 / 2 = 25
   \<and> anchorPoint ellipse_50_25 \<lparr>px = 0, py = 100\<rparr> = \<lparr>jx = Fin 0, jy = Fin 25\<rparr>
   \<and> anchorPoint ellipse_50_25 \<lparr>px = 0, py = - 100\<rparr> = \<lparr>jx = Fin 0, jy = Fin (- 25)\<rparr>"
proof -
  have sqrt_16: "sqrt 16 = 4"
    using real_sqrt_abs [of 4] by simp
  have nz: "s_w ellipse_50_25 \<noteq> 0 \<and> s_h ellipse_50_25 \<noteq> 0"
    and f: "s_w ellipse_50_25 = 100" "s_h ellipse_50_25 = 50"
    by (simp_all add: ellipse_50_25_def)
  have h1: "s_type ellipse_50_25 = ''ellipse''"
    by (simp add: ellipse_50_25_def)
  have h2: "\<lparr>px = 0, py = 100\<rparr> \<noteq> shapeCenter ellipse_50_25"
    by (simp add: ellipse_50_25_center)
  have h3: "s_w ellipse_50_25 / 2 = 50 \<and> s_h ellipse_50_25 / 2 = 25"
    by (simp add: ellipse_50_25_def)
  note t = anchorPoint_ellipse [OF h1 h2]
  from t [THEN conjunct2, THEN conjunct1] nz
  have up: "anchorPoint ellipse_50_25 \<lparr>px = 0, py = 100\<rparr> = \<lparr>jx = Fin 0, jy = Fin 25\<rparr>"
    by (simp add: Let_def ellipse_50_25_center f sqrt_16)
  from t [THEN conjunct2, THEN conjunct2, THEN conjunct1]
  have down: "anchorPoint ellipse_50_25 \<lparr>px = 0, py = - 100\<rparr> = \<lparr>jx = Fin 0, jy = Fin (- 25)\<rparr>"
    by simp
  from h1 h2 h3 up down ellipse_50_25_center show ?thesis by simp
qed

text \<open>
  Off the centre the guard on \<open>denom\<close> never fires: with a width and a height other
  than zero \<open>denom\<close> is positive, and with a zero width or height it is \<open>Infinity\<close> or
  not a number, which \<open>denom <= 0\<close> lets pass.
\<close>

lemma jdiv_square_zero: "jdiv (Fin (x * x)) (Fin 0) = (if x = 0 then NaN else PInf)"
  by (auto simp: zero_less_mult_iff)

lemma jadd_not_below:
  "\<not> jle (jadd NaN y) (Fin 0)" "\<not> jle (jadd x NaN) (Fin 0)"
  "\<not> jle (jadd PInf (Fin b)) (Fin 0)" "\<not> jle (jadd (Fin a) PInf) (Fin 0)"
  "\<not> jle (jadd PInf PInf) (Fin 0)"
  by (cases x; simp)+

lemma ellipse_guard_only_at_center:
  assumes "jle (ellipse_denom s toward) (Fin 0)"
  shows "toward = shapeCenter s"
proof (rule ccontr)
  assume "toward \<noteq> shapeCenter s"
  then have nz: "px toward - px (shapeCenter s) \<noteq> 0 \<or> py toward - py (shapeCenter s) \<noteq> 0"
    unfolding center_diff .
  show False
  proof (cases "s_w s = 0 \<or> s_h s = 0")
    case False
    then have w: "s_w s \<noteq> 0" "s_h s \<noteq> 0" by simp_all
    have "0 < (px toward - px (shapeCenter s))\<^sup>2 / (s_w s / 2)\<^sup>2
            + (py toward - py (shapeCenter s))\<^sup>2 / (s_h s / 2)\<^sup>2"
      using w nz by (intro denom_pos) simp_all
    with assms show False
      unfolding ellipse_denom_fin [OF w] by simp
  next
    case True
    then have "\<not> jle (ellipse_denom s toward) (Fin 0)"
      unfolding ellipse_denom_def Let_def
      by (auto simp: jdiv_square_zero jadd_not_below)
    with assms show False by simp
  qed
qed

text \<open>
  C3. The code breaks the claim. \<open>flat_ellipse\<close> has a zero width, and the point
  \<open>(0,100)\<close> lies straight below its centre \<open>(0,25)\<close>: \<open>a * a\<close> is zero, \<open>(dx*dx)/(a*a)\<close>
  is zero divided by zero, \<open>denom\<close> is not a number, the guard \<open>denom <= 0\<close> does not
  hold, and \<open>anchorPoint\<close> returns neither the centre nor any other point.
\<close>

theorem flat_ellipse_division_by_zero:
  "s_type flat_ellipse = ''ellipse''
   \<and> shapeCenter flat_ellipse = \<lparr>px = 0, py = 25\<rparr>
   \<and> ellipse_denom flat_ellipse \<lparr>px = 0, py = 100\<rparr> = NaN
   \<and> jle (ellipse_denom flat_ellipse \<lparr>px = 0, py = 100\<rparr>) (Fin 0) = False
   \<and> anchorPoint flat_ellipse \<lparr>px = 0, py = 100\<rparr> = \<lparr>jx = NaN, jy = NaN\<rparr>"
  by (simp add: flat_ellipse_def shapeCenter_def ellipse_denom_def anchorPoint_def Let_def)

section \<open>Properties of the state machine\<close>

subsection \<open>Rendering and sequencing\<close>

lemma render_fst: "fst (render st) = st\<lparr>previewShown := False\<rparr>"
  by (simp add: render_def Let_def split: list.splits option.splits)



lemma and_then_fst:
  "fst (and_then r (\<lambda>s. (f s, None))) = (if snd r = None then f (fst r) else fst r)"
  by (cases r) (auto simp: and_then_def split: option.splits)


lemma run_snoc: "run (ins @ [i]) st = step i (run ins st)"
  by (simp add: run_def)

subsection \<open>Shapes under update\<close>

lemma update_shape_ids:
  assumes "\<And>s. s_id (f s) = s_id s"
  shows "map s_id (update_shape sid f shs) = map s_id shs"
  by (induction shs) (simp_all add: assms)

lemma move_shapes_ids: "map s_id (move_shapes dx dy sids shs) = map s_id shs"
  unfolding move_shapes_def
  by (induction sids arbitrary: shs) (simp_all add: update_shape_ids)

lemma update_shape_all:
  assumes "list_all P shs" and "\<And>s. P s \<Longrightarrow> P (f s)"
  shows "list_all P (update_shape sid f shs)"
  using assms(1) by (induction shs) (simp_all add: assms(2))

lemma move_shapes_all:
  assumes "list_all P shs"
    and "\<And>s a b. P s \<Longrightarrow> P (s\<lparr>s_x := a, s_y := b\<rparr>)"
  shows "list_all P (move_shapes dx dy sids shs)"
  using assms(1) unfolding move_shapes_def
  by (induction sids arbitrary: shs) (simp_all add: update_shape_all assms(2))

subsection \<open>Id allocation\<close>

lemma onDown_ids:
  "same_ids st (fst (onDown u e st)) \<or> new_shape_id st (fst (onDown u e st))"
  by (auto simp: onDown_def Let_def render_fst newId_def same_ids_def new_shape_id_def
       update_shape_ids
       split: target.splits option.splits tag.splits)

lemma onMove_ids: "same_ids st (fst (onMove e st))"
  by (auto simp: onMove_def Let_def render_fst same_ids_def update_shape_ids move_shapes_ids
       split: option.splits drag.splits)

lemma onUp_ids:
  "same_ids st (fst (onUp u e st)) \<or> new_connector_id st (fst (onUp u e st))"
  by (auto simp: onUp_def Let_def render_fst and_then_fst newId_def same_ids_def
       new_connector_id_def applyMarquee_def
       split: option.splits drag.splits tag.splits)

lemma step_ids:
  "same_ids st (step i st) \<or> new_shape_id st (step i st) \<or> new_connector_id st (step i st)"
proof (cases i)
  case (ToolClick t)
  then show ?thesis by (simp add: same_ids_def)
next
  case (PointerDown u e)
  then show ?thesis using onDown_ids [of st u e] by auto
next
  case (PointerMove e)
  then show ?thesis using onMove_ids [of st e] by auto
next
  case (PointerUp u e)
  then show ?thesis using onUp_ids [of st u e] by auto
qed

text \<open>The three possible effects of a step on the list of ids.\<close>

lemma step_ids_of:
  "(ids_of (step i st) = ids_of st \<and> nextId (step i st) = nextId st)
   \<or> (ids_of (step i st) = map s_id (shapes st) @ [nextId st] @ map c_id (connectors st)
       \<and> nextId (step i st) = nextId st + 1)
   \<or> (ids_of (step i st) = ids_of st @ [nextId st] \<and> nextId (step i st) = nextId st + 1)"
  using step_ids [of st i]
  by (auto simp: ids_of_def same_ids_def new_shape_id_def new_connector_id_def)

lemma ids_inv_initial: "ids_inv initial_state"
  by (simp add: ids_inv_def ids_of_def initial_state_def)

lemma step_ids_inv:
  assumes "ids_inv st"
  shows "ids_inv (step i st)"
proof -
  let ?A = "map s_id (shapes st)" and ?B = "map c_id (connectors st)"
  have ab: "ids_of st = ?A @ ?B"
    by (simp add: ids_of_def)
  from assms have d: "distinct (ids_of st)" and b: "\<forall>j\<in>set (ids_of st). j < nextId st"
    by (simp_all add: ids_inv_def list_all_iff)
  from b have n: "nextId st \<notin> set (ids_of st)"
    by auto
  have b': "\<forall>j\<in>set (ids_of st). j < nextId st + 1"
  proof
    fix j assume "j \<in> set (ids_of st)"
    with b have "j < nextId st" by blast
    then show "j < nextId st + 1" by simp
  qed
  from step_ids_of [of i st] show ?thesis
  proof (elim disjE conjE)
    assume "ids_of (step i st) = ids_of st" "nextId (step i st) = nextId st"
    with assms show ?thesis by (simp add: ids_inv_def)
  next
    assume e: "ids_of (step i st) = ?A @ [nextId st] @ ?B"
      and m: "nextId (step i st) = nextId st + 1"
    have "distinct (?A @ [nextId st] @ ?B)"
      using d n unfolding ab by simp
    moreover have "\<forall>j\<in>set (?A @ [nextId st] @ ?B). j < nextId st + 1"
      using b' unfolding ab by simp
    ultimately show ?thesis
      unfolding ids_inv_def list_all_iff e m by simp
  next
    assume e: "ids_of (step i st) = ids_of st @ [nextId st]"
      and m: "nextId (step i st) = nextId st + 1"
    have "distinct (ids_of st @ [nextId st])"
      using d n by simp
    moreover have "\<forall>j\<in>set (ids_of st @ [nextId st]). j < nextId st + 1"
      using b' by simp
    ultimately show ?thesis
      unfolding ids_inv_def list_all_iff e m by simp
  qed
qed

lemma step_nextId: "nextId st \<le> nextId (step i st)"
  using step_ids_of [of i st] by auto

lemma step_fresh:
  assumes "ids_inv st"
  shows "fresh_ids st (step i st) = [] \<or> fresh_ids st (step i st) = [nextId st]"
proof -
  from assms have b: "\<forall>j\<in>set (ids_of st). j < nextId st"
    by (simp add: ids_inv_def list_all_iff)
  then have n: "nextId st \<notin> set (ids_of st)" by auto
  have f: "filter (\<lambda>j. j \<notin> set (ids_of st)) (ids_of st) = []"
    by (simp add: filter_empty_conv)
  from step_ids_of [of i st] show ?thesis
  proof (elim disjE conjE)
    assume "ids_of (step i st) = ids_of st"
    then show ?thesis by (simp add: fresh_ids_def f)
  next
    assume e: "ids_of (step i st) = map s_id (shapes st) @ [nextId st] @ map c_id (connectors st)"
    have "filter (\<lambda>j. j \<notin> set (ids_of st)) (map s_id (shapes st)) = []"
      "filter (\<lambda>j. j \<notin> set (ids_of st)) (map c_id (connectors st)) = []"
      by (auto simp add: filter_empty_conv ids_of_def)
    with n show ?thesis by (simp add: fresh_ids_def e)
  next
    assume "ids_of (step i st) = ids_of st @ [nextId st]"
    with n f show ?thesis by (simp add: fresh_ids_def)
  qed
qed

lemma run_ids_inv:
  assumes "ids_inv st"
  shows "ids_inv (run ins st)"
  using assms unfolding run_def
  by (induction ins arbitrary: st) (simp_all add: step_ids_inv)

lemma newId_eq: "newId st = (nextId st, st\<lparr>nextId := nextId st + 1\<rparr>)"
  by (simp add: newId_def)

text \<open>The run that draws a rectangle, evaluated.\<close>

lemma draw_rect_run:
  "run draw_rect initial_state =
     \<lparr>tool = ''rect'', symbol = ''pipe'', nextId = 2,
      shapes = [\<lparr>s_id = 1, s_type = ''rect'', s_x = 40, s_y = 40, s_w = 1, s_h = 1,
                 s_fill = ''#ffffff'', s_outline = ''#000000'', s_width = 2, s_text = '''',
                 s_symbol = Some ''pipe''\<rparr>],
      connectors = [], selection = [ShapeTag 1],
      drag = Some (Create 1 \<lparr>px = 47, py = 33\<rparr>), previewShown = False\<rparr>"
  by (simp add: run_def draw_rect_def initial_state_def onDown_def pointer_def ui0_def
        newId_def render_fst defaultWidth_def snap_def gridSize_def math_round_def)

text \<open>
  C10. \<open>newId\<close> returns the current \<open>nextId\<close> and increments it. In every state
  reached from the initial one by tool clicks and pointer events the ids of shapes
  and connectors together are pairwise distinct and below \<open>nextId\<close>; a step from
  such a state keeps this, never lowers \<open>nextId\<close>, and adds at most one id, which is
  the old \<open>nextId\<close> and so greater than every id in use before.
\<close>

theorem shared_id_counter:
  "newId st = (nextId st, st\<lparr>nextId := nextId st + 1\<rparr>)
   \<and> ids_inv (run ins initial_state)
   \<and> (ids_inv st \<longrightarrow>
        ids_inv (step i st)
        \<and> nextId st \<le> nextId (step i st)
        \<and> (fresh_ids st (step i st) = [] \<or> fresh_ids st (step i st) = [nextId st])
        \<and> (\<forall>j\<in>set (fresh_ids st (step i st)). \<forall>k\<in>set (ids_of st). k < j))"
proof (intro conjI impI)
  show "newId st = (nextId st, st\<lparr>nextId := nextId st + 1\<rparr>)" by (rule newId_eq)
  show "ids_inv (run ins initial_state)" by (rule run_ids_inv [OF ids_inv_initial])
next
  assume a: "ids_inv st"
  show "ids_inv (step i st)" using a by (rule step_ids_inv)
  show "nextId st \<le> nextId (step i st)" by (rule step_nextId)
  show f: "fresh_ids st (step i st) = [] \<or> fresh_ids st (step i st) = [nextId st]"
    using a by (rule step_fresh)
  from a have "\<forall>k\<in>set (ids_of st). k < nextId st"
    by (simp add: ids_inv_def list_all_iff)
  with f show "\<forall>j\<in>set (fresh_ids st (step i st)). \<forall>k\<in>set (ids_of st). k < j"
    by auto
qed

text \<open>
  Drawing a rectangle and pressing once more: the first rectangle gets id 1
  from a counter that stood at 1, the second press adds the id 2 and no other.
\<close>

theorem shared_id_counter_witness:
  "ids_inv (run draw_rect initial_state)
   \<and> ids_of (run draw_rect initial_state) = [1]
   \<and> nextId (run draw_rect initial_state) = 2
   \<and> ids_inv (step (PointerDown ui0 (pointer 200 100 Blank)) (run draw_rect initial_state))
   \<and> fresh_ids (run draw_rect initial_state)
        (step (PointerDown ui0 (pointer 200 100 Blank)) (run draw_rect initial_state)) = [2]"
proof -
  let ?st = "run draw_rect initial_state"
  let ?i = "PointerDown ui0 (pointer 200 100 Blank)"
  note t = shared_id_counter [of ?st draw_rect ?i]
  from t have a: "ids_inv ?st" by blast
  with t have b: "ids_inv (step ?i ?st)" by blast
  have c: "ids_of ?st = [1]" "nextId ?st = 2"
    by (simp_all add: draw_rect_run ids_of_def)
  have "ids_of (step ?i ?st) = [1, 2]"
    by (simp add: draw_rect_run ids_of_def onDown_def pointer_def newId_def render_fst)
  then have "fresh_ids ?st (step ?i ?st) = [2]"
    by (simp add: fresh_ids_def c)
  with a b c show ?thesis by simp
qed

subsection \<open>The symbol field of created shapes\<close>

lemma onDown_create:
  assumes "tool st = ''rect'' \<or> tool st = ''ellipse'' \<or> tool st = ''symbol''"
    and "\<forall>sid pos. e_target e \<noteq> Grip sid pos"
  shows "shapes (fst (onDown u e st)) = shapes st @
     [\<lparr>s_id = nextId st, s_type = tool st, s_x = snap (e_x e), s_y = snap (e_y e),
       s_w = 1, s_h = 1, s_fill = fillInput u, s_outline = strokeInput u,
       s_width = defaultWidth u, s_text = '''', s_symbol = Some (symbolKindSelect u)\<rparr>]"
  using assms
  by (auto simp: onDown_def Let_def render_fst newId_def split: target.splits)

lemma onDown_symbols:
  assumes "list_all has_symbol (shapes st)"
  shows "list_all has_symbol (shapes (fst (onDown u e st)))"
  using assms
  by (auto simp: onDown_def Let_def render_fst newId_def has_symbol_def
        intro!: update_shape_all
        split: target.splits option.splits tag.splits)

lemma onMove_symbols:
  assumes "list_all has_symbol (shapes st)"
  shows "list_all has_symbol (shapes (fst (onMove e st)))"
  using assms
  by (auto simp: onMove_def Let_def render_fst has_symbol_def
        intro!: update_shape_all move_shapes_all
        split: option.splits drag.splits)

lemma onUp_shapes: "shapes (fst (onUp u e st)) = shapes st"
  by (auto simp: onUp_def Let_def render_fst and_then_fst newId_def applyMarquee_def
        split: option.splits drag.splits tag.splits)

lemma step_symbols:
  assumes "list_all has_symbol (shapes st)"
  shows "list_all has_symbol (shapes (step i st))"
  using assms by (cases i) (simp_all add: onDown_symbols onMove_symbols onUp_shapes)

lemma run_symbols:
  assumes "list_all has_symbol (shapes st)"
  shows "list_all has_symbol (shapes (run ins st))"
  using assms unfolding run_def
  by (induction ins arbitrary: st) (simp_all add: step_symbols)

text \<open>
  C9, as amended. A press with the tool \<open>rect\<close>, \<open>ellipse\<close> or \<open>symbol\<close> (not on a
  resize grip) appends one shape; its type is the tool and its \<open>symbol\<close> field is
  present and holds the value of the symbol-kind select, whatever the type. Every
  shape of a state reached from the initial one has the field, and \<open>serialize\<close> writes
  the shapes as they are.
\<close>

theorem created_shape_symbol:
  "((tool st = ''rect'' \<or> tool st = ''ellipse'' \<or> tool st = ''symbol'')
      \<and> (\<forall>sid pos. e_target e \<noteq> Grip sid pos)
      \<longrightarrow> (\<exists>s. shapes (fst (onDown u e st)) = shapes st @ [s]
               \<and> s_id s = nextId st \<and> s_type s = tool st
               \<and> s_symbol s = Some (symbolKindSelect u)))
   \<and> list_all has_symbol (shapes (run ins initial_state))
   \<and> d_shapes (serialize u st) = Some (shapes st)"
proof (intro conjI impI)
  assume "(tool st = ''rect'' \<or> tool st = ''ellipse'' \<or> tool st = ''symbol'')
      \<and> (\<forall>sid pos. e_target e \<noteq> Grip sid pos)"
  then have "shapes (fst (onDown u e st)) = shapes st @
     [\<lparr>s_id = nextId st, s_type = tool st, s_x = snap (e_x e), s_y = snap (e_y e),
       s_w = 1, s_h = 1, s_fill = fillInput u, s_outline = strokeInput u,
       s_width = defaultWidth u, s_text = '''', s_symbol = Some (symbolKindSelect u)\<rparr>]"
    by (intro onDown_create) simp_all
  then show "\<exists>s. shapes (fst (onDown u e st)) = shapes st @ [s]
               \<and> s_id s = nextId st \<and> s_type s = tool st
               \<and> s_symbol s = Some (symbolKindSelect u)"
    by simp
next
  show "list_all has_symbol (shapes (run ins initial_state))"
    by (rule run_symbols) (simp add: initial_state_def)
next
  show "d_shapes (serialize u st) = Some (shapes st)"
    by (simp add: serialize_def)
qed

theorem created_shape_symbol_witness:
  "tool (step (ToolClick ''ellipse'') initial_state) = ''ellipse''
   \<and> (\<forall>sid pos. e_target (pointer 47 33 Blank) \<noteq> Grip sid pos)
   \<and> (\<exists>s. shapes (fst (onDown ui0 (pointer 47 33 Blank) (step (ToolClick ''ellipse'') initial_state)))
            = [s]
          \<and> s_id s = 1 \<and> s_type s = ''ellipse'' \<and> s_symbol s = Some ''pipe'')
   \<and> list_all has_symbol (shapes (run draw_rect initial_state))"
proof -
  let ?st = "step (ToolClick ''ellipse'') initial_state"
  let ?e = "pointer 47 33 Blank"
  note t = created_shape_symbol [of ?st ?e ui0 draw_rect]
  have h: "(tool ?st = ''rect'' \<or> tool ?st = ''ellipse'' \<or> tool ?st = ''symbol'')
      \<and> (\<forall>sid pos. e_target ?e \<noteq> Grip sid pos)"
    by (simp add: pointer_def)
  with t have "\<exists>s. shapes (fst (onDown ui0 ?e ?st)) = shapes ?st @ [s]
               \<and> s_id s = nextId ?st \<and> s_type s = tool ?st
               \<and> s_symbol s = Some (symbolKindSelect ui0)"
    by blast
  moreover from t have "list_all has_symbol (shapes (run draw_rect initial_state))"
    by blast
  ultimately show ?thesis using h
    by (simp add: initial_state_def ui0_def)
qed

text \<open>
  The claim as it was stated fails: the rectangle that the run \<open>draw_rect\<close> creates
  carries a symbol kind.
\<close>

theorem rect_has_symbol_counterexample:
  "map (\<lambda>s. (s_type s, s_symbol s)) (shapes (run draw_rect initial_state))
     = [(''rect'', Some ''pipe'')]"
  by (simp add: draw_rect_run)

subsection \<open>Loading a document\<close>

lemma fold_max_Max: "fold max xs (a::int) = Max (set (a # xs))"
  by (rule Max.set_eq_fold [symmetric])

lemma or_else_falsy: "a = None \<or> a = Some 0 \<Longrightarrow> or_else a b = b"
  by (auto simp: or_else_def)

lemma load_nextId:
  assumes "d_next_id d = None \<or> d_next_id d = Some 0"
    and "d_nextId d = None \<or> d_nextId d = Some 0"
  shows "nextId (load_document (Some d) st) =
           Max (set (1 # ids_of (load_document (Some d) st))) + 1"
proof -
  let ?st = "load_document (Some d) st"
  have "nextId ?st = max_id (shapes ?st) (connectors ?st) + 1"
    using assms
    by (simp add: load_document_def Let_def render_fst or_else_falsy)
  also have "max_id (shapes ?st) (connectors ?st) = Max (set (1 # ids_of ?st))"
    unfolding max_id_def ids_of_def by (rule fold_max_Max)
  finally show ?thesis .
qed

lemma load_nextId_bounds:
  assumes "nextId st = Max (set (1 # ids_of st)) + 1"
  shows "2 \<le> nextId st" and "\<forall>i\<in>set (ids_of st). i < nextId st"
proof -
  have f: "finite (set (1 # ids_of st))" by simp
  have "1 \<le> Max (set (1 # ids_of st))"
    by (rule Max_ge [OF f]) simp
  with assms show "2 \<le> nextId st" by simp
  show "\<forall>i\<in>set (ids_of st). i < nextId st"
  proof
    fix i assume "i \<in> set (ids_of st)"
    then have "i \<le> Max (set (1 # ids_of st))"
      by (intro Max_ge [OF f]) simp
    with assms show "i < nextId st" by simp
  qed
qed

lemma load_ids:
  "ids_of (load_document (Some d) st) =
     map s_id (case d_shapes d of None \<Rightarrow> [] | Some l \<Rightarrow> l)
     @ map c_id (case d_connectors d of None \<Rightarrow> [] | Some l \<Rightarrow> l)"
  by (simp add: load_document_def Let_def render_fst ids_of_def)

lemma load_empty:
  "nextId (load_document (Some empty_document) st) = 2"
  by (simp add: load_document_def Let_def render_fst or_else_def max_id_def
        empty_document_def)

lemma or_else_truthy: "n \<noteq> 0 \<Longrightarrow> or_else (Some n) b = n"
  by (simp add: or_else_def)

lemma load_nextId_eq:
  "nextId (load_document (Some d) st) =
     or_else (d_next_id d) (or_else (d_nextId d)
       (max_id (shapes (load_document (Some d) st)) (connectors (load_document (Some d) st)) + 1))"
  by (simp add: load_document_def Let_def render_fst)

text \<open>
  C7, as amended. A non-zero \<open>next_id\<close> of the document is taken as it is, and so is,
  without it, a non-zero \<open>nextId\<close>. When the document has neither (or has them as
  \<open>0\<close>), the loader derives \<open>nextId\<close>: the derived value is at least 2, and it is 2 for
  a document whose collections are empty or missing; with all loaded ids below
  \<open>2\<^sup>5\<^sup>3\<close>, where the arithmetic of the source is exact, it is one more than the
  largest of \<open>1\<close> and the ids of the loaded shapes and connectors, and so above every
  loaded id.
\<close>

theorem load_derives_next_id:
  "ids_of (load_document (Some d) st) =
     map s_id (case d_shapes d of None \<Rightarrow> [] | Some l \<Rightarrow> l)
     @ map c_id (case d_connectors d of None \<Rightarrow> [] | Some l \<Rightarrow> l)
   \<and> (\<forall>n. d_next_id d = Some n \<and> n \<noteq> 0 \<longrightarrow> nextId (load_document (Some d) st) = n)
   \<and> (\<forall>m. (d_next_id d = None \<or> d_next_id d = Some 0) \<and> d_nextId d = Some m \<and> m \<noteq> 0
          \<longrightarrow> nextId (load_document (Some d) st) = m)
   \<and> ((d_next_id d = None \<or> d_next_id d = Some 0)
        \<and> (d_nextId d = None \<or> d_nextId d = Some 0) \<longrightarrow>
          2 \<le> nextId (load_document (Some d) st)
          \<and> (ids_of (load_document (Some d) st) = [] \<longrightarrow> nextId (load_document (Some d) st) = 2)
          \<and> (list_all (\<lambda>i. i < 2 ^ 53) (ids_of (load_document (Some d) st)) \<longrightarrow>
                nextId (load_document (Some d) st) =
                  Max (set (1 # ids_of (load_document (Some d) st))) + 1
                \<and> (\<forall>i\<in>set (ids_of (load_document (Some d) st)).
                      i < nextId (load_document (Some d) st))))"
proof (intro conjI allI impI)
  let ?st = "load_document (Some d) st"
  show "ids_of ?st = map s_id (case d_shapes d of None \<Rightarrow> [] | Some l \<Rightarrow> l)
           @ map c_id (case d_connectors d of None \<Rightarrow> [] | Some l \<Rightarrow> l)"
    by (rule load_ids)
next
  fix n assume "d_next_id d = Some n \<and> n \<noteq> 0"
  then show "nextId (load_document (Some d) st) = n"
    unfolding load_nextId_eq by (simp add: or_else_truthy)
next
  fix m
  assume "(d_next_id d = None \<or> d_next_id d = Some 0) \<and> d_nextId d = Some m \<and> m \<noteq> 0"
  then show "nextId (load_document (Some d) st) = m"
    unfolding load_nextId_eq by (auto simp add: or_else_truthy or_else_falsy)
next
  let ?st = "load_document (Some d) st"
  assume a: "(d_next_id d = None \<or> d_next_id d = Some 0)
        \<and> (d_nextId d = None \<or> d_nextId d = Some 0)"
  then have n: "nextId ?st = Max (set (1 # ids_of ?st)) + 1"
    by (intro load_nextId) simp_all
  show "2 \<le> nextId ?st"
    by (rule load_nextId_bounds(1) [OF n])
  show "nextId ?st = 2" if "ids_of ?st = []"
    using n that by simp
  show "nextId ?st = Max (set (1 # ids_of ?st)) + 1"
    by (rule n)
  show "\<forall>i\<in>set (ids_of ?st). i < nextId ?st"
    by (rule load_nextId_bounds(2) [OF n])
qed

text \<open>
  A document with the ids 1, 2 and 3 and no counter gets 4, above each of them; the
  document whose only key is \<open>nextId = 7\<close> gets 7; with \<open>next_id = 9\<close> beside it,
  9; the document without any key gets 2.
\<close>

theorem load_derives_next_id_witness:
  "d_next_id document_123 = None \<and> d_nextId document_123 = None
   \<and> ids_of (load_document (Some document_123) initial_state) = [1, 2, 3]
   \<and> list_all (\<lambda>i. i < 2 ^ 53) (ids_of (load_document (Some document_123) initial_state))
   \<and> nextId (load_document (Some document_123) initial_state) = 4
   \<and> list_all (\<lambda>i. i < nextId (load_document (Some document_123) initial_state))
        (ids_of (load_document (Some document_123) initial_state))
   \<and> d_next_id document_camel = None \<and> d_nextId document_camel = Some 7
   \<and> nextId (load_document (Some document_camel) initial_state) = 7
   \<and> d_next_id document_snake = Some 9
   \<and> nextId (load_document (Some document_snake) initial_state) = 9
   \<and> d_next_id empty_document = None \<and> d_nextId empty_document = None
   \<and> ids_of (load_document (Some empty_document) initial_state) = []
   \<and> nextId (load_document (Some empty_document) initial_state) = 2"
proof -
  note t1 = load_derives_next_id [of document_123 initial_state]
  note t2 = load_derives_next_id [of document_camel initial_state]
  note t3 = load_derives_next_id [of document_snake initial_state]
  note t4 = load_derives_next_id [of empty_document initial_state]
  have f: "s_id rect_100_50 = 1" "s_id rect_200_0 = 2"
    by (simp_all add: rect_100_50_def rect_200_0_def)
  have h1: "d_next_id document_123 = None" "d_nextId document_123 = None"
    by (simp_all add: document_123_def)
  from t1 have i1: "ids_of (load_document (Some document_123) initial_state) = [1, 2, 3]"
    by (simp add: document_123_def f)
  then have s1: "list_all (\<lambda>i. i < 2 ^ 53) (ids_of (load_document (Some document_123) initial_state))"
    by simp
  from t1 h1 s1 have "nextId (load_document (Some document_123) initial_state) =
      Max (set (1 # ids_of (load_document (Some document_123) initial_state))) + 1"
    by blast
  then have n1: "nextId (load_document (Some document_123) initial_state) = 4"
    unfolding i1 by simp
  from t1 h1 s1 have "\<forall>i\<in>set (ids_of (load_document (Some document_123) initial_state)).
      i < nextId (load_document (Some document_123) initial_state)"
    by blast
  then have b1: "list_all (\<lambda>i. i < nextId (load_document (Some document_123) initial_state))
      (ids_of (load_document (Some document_123) initial_state))"
    by (simp only: list_all_iff)
  have h2: "d_next_id document_camel = None" "d_nextId document_camel = Some 7"
    by (simp_all add: document_camel_def)
  from t2 h2 have n2: "nextId (load_document (Some document_camel) initial_state) = 7"
    by simp
  have h3: "d_next_id document_snake = Some 9"
    by (simp add: document_snake_def)
  from t3 h3 have n3: "nextId (load_document (Some document_snake) initial_state) = 9"
    by simp
  have h4: "d_next_id empty_document = None" "d_nextId empty_document = None"
    by (simp_all add: empty_document_def)
  from t4 have i4: "ids_of (load_document (Some empty_document) initial_state) = []"
    by (simp add: empty_document_def)
  with t4 h4 have n4: "nextId (load_document (Some empty_document) initial_state) = 2"
    by blast
  from h1 i1 s1 n1 b1 h2 n2 h3 n3 h4 i4 n4 show ?thesis by blast
qed

text \<open>
  The claim as it was stated fails: for a document with empty collections and no
  \<open>next_id\<close> the loader derives 2, not 1.
\<close>

theorem load_empty_counterexample:
  "nextId (load_document
     (Some \<lparr>d_shapes = Some [], d_connectors = Some [], d_next_id = None, d_nextId = None,
            d_settings = None\<rparr>) initial_state) \<noteq> 1"
  by (simp add: load_document_def Let_def render_fst or_else_def max_id_def)

subsection \<open>Releasing a connect gesture\<close>










subsection \<open>Grid alignment of the edited geometry\<close>

lemma grid_aligned_add: "grid_aligned a \<Longrightarrow> grid_aligned b \<Longrightarrow> grid_aligned (a + b)"
  unfolding grid_aligned_iff
proof -
  assume "\<exists>k::int. a = real_of_int k * gridSize" "\<exists>k::int. b = real_of_int k * gridSize"
  then obtain k m :: int where "a = real_of_int k * gridSize" "b = real_of_int m * gridSize"
    by blast
  then have "a + b = real_of_int (k + m) * gridSize"
    by (simp add: algebra_simps)
  then show "\<exists>k::int. a + b = real_of_int k * gridSize" ..
qed

lemma grid_aligned_diff: "grid_aligned a \<Longrightarrow> grid_aligned b \<Longrightarrow> grid_aligned (a - b)"
  unfolding grid_aligned_iff
proof -
  assume "\<exists>k::int. a = real_of_int k * gridSize" "\<exists>k::int. b = real_of_int k * gridSize"
  then obtain k m :: int where "a = real_of_int k * gridSize" "b = real_of_int m * gridSize"
    by blast
  then have "a - b = real_of_int (k - m) * gridSize"
    by (simp add: algebra_simps)
  then show "\<exists>k::int. a - b = real_of_int k * gridSize" ..
qed

lemma grid_aligned_abs: "grid_aligned a \<Longrightarrow> grid_aligned \<bar>a\<bar>"
  unfolding grid_aligned_iff
proof -
  assume "\<exists>k::int. a = real_of_int k * gridSize"
  then obtain k :: int where "a = real_of_int k * gridSize" ..
  then have "\<bar>a\<bar> = real_of_int \<bar>k\<bar> * gridSize"
    by (simp add: abs_mult gridSize_def)
  then show "\<exists>k::int. \<bar>a\<bar> = real_of_int k * gridSize" ..
qed

lemma grid_aligned_min: "grid_aligned a \<Longrightarrow> grid_aligned b \<Longrightarrow> grid_aligned (min a b)"
  by (simp add: min_def)

lemma grid_aligned_below_one:
  assumes "grid_aligned a" and "a < 1"
  shows "a \<le> 0"
proof -
  from assms(1) obtain k :: int where k: "a = real_of_int k * gridSize"
    unfolding grid_aligned_iff ..
  with assms(2) have "real_of_int k * 20 < 1"
    by (simp add: gridSize_def)
  then have "k \<le> 0" by linarith
  then have "real_of_int k \<le> 0" by simp
  with k show ?thesis by (simp add: gridSize_def mult_le_0_iff)
qed

lemma grid_aligned_clamp:
  assumes "grid_aligned a"
  shows "(grid_aligned (max 1 a) \<or> max 1 a = 1) \<and> 1 \<le> max 1 a"
  using assms by (auto simp: max_def)

lemma find_update:
  assumes "\<And>s. s_id (f s) = s_id s"
  shows "find_shape sid' (update_shape sid f shs) =
     (if sid' = sid then map_option f (find_shape sid shs) else find_shape sid' shs)"
  by (induction shs) (auto simp add: find_shape_def assms)

lemma move_shapes_snoc:
  "move_shapes dx dy (sids @ [a]) shs =
     update_shape a (\<lambda>s. s\<lparr>s_x := snap (s_x s + dx), s_y := snap (s_y s + dy)\<rparr>)
       (move_shapes dx dy sids shs)"
  by (simp add: move_shapes_def)

text \<open>The loop of the move gesture keeps the size of every shape.\<close>

lemma move_shapes_size:
  assumes "find_shape sid (move_shapes dx dy sids shs) = Some s'"
  shows "\<exists>s. find_shape sid shs = Some s \<and> s_w s' = s_w s \<and> s_h s' = s_h s"
  using assms
proof (induction sids arbitrary: s' rule: rev_induct)
  case Nil
  then show ?case by (simp add: move_shapes_def)
next
  case (snoc a sids)
  show ?case
  proof (cases "sid = a")
    case True
    with snoc.prems obtain s0 where
      s0: "find_shape sid (move_shapes dx dy sids shs) = Some s0"
      and s': "s' = s0\<lparr>s_x := snap (s_x s0 + dx), s_y := snap (s_y s0 + dy)\<rparr>"
      unfolding move_shapes_snoc by (auto simp: find_update)
    from snoc.IH [OF s0] s' show ?thesis by auto
  next
    case False
    with snoc.prems have "find_shape sid (move_shapes dx dy sids shs) = Some s'"
      unfolding move_shapes_snoc by (simp add: find_update)
    then show ?thesis by (rule snoc.IH)
  qed
qed

text \<open>After the loop every listed shape lies at a snapped position.\<close>

lemma move_shapes_aligned:
  assumes "sid \<in> set sids" and "find_shape sid (move_shapes dx dy sids shs) = Some s'"
  shows "grid_aligned (s_x s') \<and> grid_aligned (s_y s')"
  using assms
proof (induction sids arbitrary: s' rule: rev_induct)
  case Nil
  then show ?case by simp
next
  case (snoc a sids)
  show ?case
  proof (cases "sid = a")
    case True
    with snoc.prems(2) obtain s0 where
      "s' = s0\<lparr>s_x := snap (s_x s0 + dx), s_y := snap (s_y s0 + dy)\<rparr>"
      unfolding move_shapes_snoc by (auto simp: find_update)
    then show ?thesis by (simp add: snap_aligned)
  next
    case False
    with snoc.prems have "sid \<in> set sids"
      and "find_shape sid (move_shapes dx dy sids shs) = Some s'"
      unfolding move_shapes_snoc by (simp_all add: find_update)
    then show ?thesis by (rule snoc.IH)
  qed
qed

lemma resize_geom_aligned:
  assumes "geom_aligned orig"
  shows "grid_aligned (g_x (resize_geom pos orig x y))"
    and "grid_aligned (g_y (resize_geom pos orig x y))"
    and "(grid_aligned (g_w (resize_geom pos orig x y)) \<or> g_w (resize_geom pos orig x y) = 1)
         \<and> 1 \<le> g_w (resize_geom pos orig x y)"
    and "(grid_aligned (g_h (resize_geom pos orig x y)) \<or> g_h (resize_geom pos orig x y) = 1)
         \<and> 1 \<le> g_h (resize_geom pos orig x y)"
proof -
  from assms have o: "grid_aligned (g_x orig)" "grid_aligned (g_y orig)"
    "grid_aligned (g_w orig)" "grid_aligned (g_h orig)"
    by (simp_all add: geom_aligned_def)
  note al = o snap_aligned grid_aligned_add grid_aligned_diff grid_aligned_abs grid_aligned_min
  show "grid_aligned (g_x (resize_geom pos orig x y))"
    by (simp add: resize_geom_def Let_def al)
  show "grid_aligned (g_y (resize_geom pos orig x y))"
    by (simp add: resize_geom_def Let_def al)
  show "(grid_aligned (g_w (resize_geom pos orig x y)) \<or> g_w (resize_geom pos orig x y) = 1)
         \<and> 1 \<le> g_w (resize_geom pos orig x y)"
    unfolding resize_geom_def Let_def
    by (simp add: grid_aligned_clamp al)
  show "(grid_aligned (g_h (resize_geom pos orig x y)) \<or> g_h (resize_geom pos orig x y) = 1)
         \<and> 1 \<le> g_h (resize_geom pos orig x y)"
    unfolding resize_geom_def Let_def
    by (simp add: grid_aligned_clamp al)
qed

lemma onMove_move:
  assumes "drag st = Some (Move sids start)"
  shows "shapes (fst (onMove e st)) =
     move_shapes (e_x e - px start) (e_y e - py start) sids (shapes st)"
  using assms by (simp add: onMove_def Let_def render_fst)

lemma onMove_resize:
  assumes "drag st = Some (Resize sid pos start orig)"
    and "find_shape sid (shapes (fst (onMove e st))) = Some s'"
  shows "geometry s' =
     (let g = resize_geom pos orig (e_x e) (e_y e) in (g_x g, g_y g, g_w g, g_h g))"
  using assms
  by (auto simp add: onMove_def Let_def render_fst find_update geometry_def
        split: option.splits)

lemma onMove_create:
  assumes "drag st = Some (Create sid start)"
    and "find_shape sid (shapes (fst (onMove e st))) = Some s'"
  shows "geometry s' =
     (min (px start) (snap (e_x e)), min (py start) (snap (e_y e)),
      max 1 \<bar>snap (e_x e) - px start\<bar>, max 1 \<bar>snap (e_y e) - py start\<bar>)"
  using assms
  by (auto simp add: onMove_def Let_def render_fst find_update geometry_def
        split: option.splits)

text \<open>The example runs, evaluated.\<close>

lemma press_origin_run:
  "run press_origin initial_state =
     \<lparr>tool = ''rect'', symbol = ''pipe'', nextId = 2,
      shapes = [\<lparr>s_id = 1, s_type = ''rect'', s_x = 0, s_y = 0, s_w = 1, s_h = 1,
                 s_fill = ''#ffffff'', s_outline = ''#000000'', s_width = 2, s_text = '''',
                 s_symbol = Some ''pipe''\<rparr>],
      connectors = [], selection = [ShapeTag 1],
      drag = Some (Create 1 \<lparr>px = 0, py = 0\<rparr>), previewShown = False\<rparr>"
  by (simp add: run_def press_origin_def initial_state_def onDown_def pointer_def ui0_def
        newId_def render_fst defaultWidth_def snap_def gridSize_def math_round_def)

lemma drag_thin_run:
  "map geometry (shapes (run drag_thin initial_state)) = [(0, 0, 1, 40)]"
  unfolding drag_thin_def run_snoc press_origin_run
  by (simp add: onMove_def render_fst pointer_def find_shape_def geometry_def
        snap_def gridSize_def math_round_def)

text \<open>
  A create gesture that starts off the grid keeps its raw starting point: \<open>onDown\<close>
  stores \<open>start:{x,y}\<close> unsnapped, and \<open>onMove\<close> takes the corner and the extent from it.
\<close>

lemma drag_off_grid_run:
  "map geometry (shapes (run drag_off_grid initial_state)) = [(47, 33, 53, 7)]"
  unfolding drag_off_grid_def run_snoc draw_rect_run
  by (simp add: onMove_def render_fst pointer_def find_shape_def geometry_def
        snap_def gridSize_def math_round_def)

text \<open>
  What the other paths keep. After a step of a move gesture every moved shape has \<open>x\<close>
  and \<open>y\<close> on the grid and the width and height it had. After a step of a resize
  gesture whose snapshot of the original geometry is on the grid, and after a step
  of a create gesture whose pointer-down landed on a grid point, the shape has \<open>x\<close>
  and \<open>y\<close> on the grid and a width and a height that are each on the grid or the
  minimum size 1.
\<close>

lemma onMove_alignment:
  "(\<forall>sids start. drag st = Some (Move sids start) \<longrightarrow>
      (\<forall>sid\<in>set sids. \<forall>s'. find_shape sid (shapes (fst (onMove e st))) = Some s' \<longrightarrow>
         grid_aligned (s_x s') \<and> grid_aligned (s_y s')
         \<and> (\<exists>s. find_shape sid (shapes st) = Some s \<and> s_w s' = s_w s \<and> s_h s' = s_h s)))
   \<and> (\<forall>sid pos start orig. drag st = Some (Resize sid pos start orig) \<and> geom_aligned orig \<longrightarrow>
      (\<forall>s'. find_shape sid (shapes (fst (onMove e st))) = Some s' \<longrightarrow> on_grid s'))
   \<and> (\<forall>sid start. drag st = Some (Create sid start)
        \<and> grid_aligned (px start) \<and> grid_aligned (py start) \<longrightarrow>
      (\<forall>s'. find_shape sid (shapes (fst (onMove e st))) = Some s' \<longrightarrow>
         on_grid s'
         \<and> geometry s' =
             (min (px start) (snap (e_x e)), min (py start) (snap (e_y e)),
              max 1 \<bar>snap (e_x e) - px start\<bar>, max 1 \<bar>snap (e_y e) - py start\<bar>)))"
proof (intro conjI allI impI ballI)
  fix sids start sid s'
  assume d: "drag st = Some (Move sids start)" and m: "sid \<in> set sids"
    and f: "find_shape sid (shapes (fst (onMove e st))) = Some s'"
  from f have f': "find_shape sid
      (move_shapes (e_x e - px start) (e_y e - py start) sids (shapes st)) = Some s'"
    unfolding onMove_move [OF d] .
  from move_shapes_aligned [OF m f'] show "grid_aligned (s_x s')" "grid_aligned (s_y s')"
    by simp_all
  from move_shapes_size [OF f']
  show "\<exists>s. find_shape sid (shapes st) = Some s \<and> s_w s' = s_w s \<and> s_h s' = s_h s" .
next
  fix sid pos start orig s'
  assume "drag st = Some (Resize sid pos start orig) \<and> geom_aligned orig"
    and f: "find_shape sid (shapes (fst (onMove e st))) = Some s'"
  then have d: "drag st = Some (Resize sid pos start orig)" and o: "geom_aligned orig"
    by simp_all
  from onMove_resize [OF d f] have g: "s_x s' = g_x (resize_geom pos orig (e_x e) (e_y e))"
    "s_y s' = g_y (resize_geom pos orig (e_x e) (e_y e))"
    "s_w s' = g_w (resize_geom pos orig (e_x e) (e_y e))"
    "s_h s' = g_h (resize_geom pos orig (e_x e) (e_y e))"
    by (simp_all add: geometry_def Let_def)
  from resize_geom_aligned [OF o, of pos "e_x e" "e_y e"] show "on_grid s'"
    unfolding on_grid_def g by simp
next
  fix sid start s'
  assume "drag st = Some (Create sid start) \<and> grid_aligned (px start) \<and> grid_aligned (py start)"
    and f: "find_shape sid (shapes (fst (onMove e st))) = Some s'"
  then have d: "drag st = Some (Create sid start)"
    and a: "grid_aligned (px start)" "grid_aligned (py start)"
    by simp_all
  note g = onMove_create [OF d f]
  then show "geometry s' =
     (min (px start) (snap (e_x e)), min (py start) (snap (e_y e)),
      max 1 \<bar>snap (e_x e) - px start\<bar>, max 1 \<bar>snap (e_y e) - py start\<bar>)" .
  from g have g': "s_x s' = min (px start) (snap (e_x e))"
    "s_y s' = min (py start) (snap (e_y e))"
    "s_w s' = max 1 \<bar>snap (e_x e) - px start\<bar>"
    "s_h s' = max 1 \<bar>snap (e_y e) - py start\<bar>"
    by (simp_all add: geometry_def)
  have "grid_aligned \<bar>snap (e_x e) - px start\<bar>" "grid_aligned \<bar>snap (e_y e) - py start\<bar>"
    using a by (simp_all add: grid_aligned_abs grid_aligned_diff snap_aligned)
  then show "on_grid s'"
    unfolding on_grid_def g' using a
    by (simp add: grid_aligned_clamp grid_aligned_min snap_aligned)
qed

text \<open>
  The rectangle tool dragged from \<open>(0,0)\<close> to \<open>(97,43)\<close> leaves the shape at
  \<open>x = 0\<close>, \<open>y = 0\<close>, \<open>w = 100\<close>, \<open>h = 40\<close>.
\<close>

lemma drag_wide_geometry:
  "drag (run press_origin initial_state) = Some (Create 1 \<lparr>px = 0, py = 0\<rparr>)
   \<and> grid_aligned 0
   \<and> (\<exists>s'. find_shape 1 (shapes (run drag_wide initial_state)) = Some s'
         \<and> on_grid s' \<and> geometry s' = (0, 0, 100, 40))"
proof -
  let ?st = "run press_origin initial_state"
  let ?e = "pointer 97 43 Blank"
  have d: "drag ?st = Some (Create 1 \<lparr>px = 0, py = 0\<rparr>)"
    by (simp add: press_origin_run)
  have z: "grid_aligned 0"
    by (simp add: grid_aligned_def)
  have r: "run drag_wide initial_state = fst (onMove ?e ?st)"
    by (simp add: drag_wide_def run_snoc)
  have "\<exists>s'. find_shape 1 (shapes (fst (onMove ?e ?st))) = Some s'"
    unfolding press_origin_run
    by (simp add: onMove_def Let_def render_fst pointer_def find_shape_def)
  then obtain s' where f: "find_shape 1 (shapes (fst (onMove ?e ?st))) = Some s'" ..
  from onMove_alignment [of ?st ?e] d z f
  have "on_grid s' \<and> geometry s' =
      (min 0 (snap (e_x ?e)), min 0 (snap (e_y ?e)),
       max 1 \<bar>snap (e_x ?e) - 0\<bar>, max 1 \<bar>snap (e_y ?e) - 0\<bar>)"
    by (metis point.select_convs(1) point.select_convs(2))
  then have "on_grid s' \<and> geometry s' = (0, 0, 100, 40)"
    by (simp add: pointer_def snap_def gridSize_def math_round_def)
  with d z f r show ?thesis by simp
qed

text \<open>
  The rectangle tool dragged from the grid point \<open>(0,0)\<close> to \<open>(5,43)\<close> leaves a shape
  of width 1, the minimum size that \<open>Math.max(1, ...)\<close> enforces.
\<close>

lemma drag_thin_geometry:
  "map geometry (shapes (run drag_thin initial_state)) = [(0, 0, 1, 40)] \<and> \<not> grid_aligned 1"
  using drag_thin_run by (simp add: grid_aligned_def gridSize_def)

text \<open>
  C4. The code breaks the claim. With the rectangle tool, the press at \<open>(47,33)\<close>
  creates the shape at the snapped point \<open>(40,40)\<close> and stores the raw point as the
  start of the drag; the move to \<open>(97,43)\<close> takes the corner and the extent of the
  shape from that raw start and from the snapped pointer \<open>(100,40)\<close>: \<open>x = 47\<close>,
  \<open>y = 33\<close>, \<open>w = 53\<close>, \<open>h = 7\<close>, none of them a multiple of 20.
\<close>

theorem create_off_grid_start:
  "map geometry (shapes (run draw_rect initial_state)) = [(40, 40, 1, 1)]
   \<and> drag (run draw_rect initial_state) = Some (Create 1 \<lparr>px = 47, py = 33\<rparr>)
   \<and> snap 97 = 100 \<and> snap 43 = 40
   \<and> map geometry (shapes (run drag_off_grid initial_state)) = [(47, 33, 53, 7)]
   \<and> \<not> grid_aligned 47 \<and> \<not> grid_aligned 33 \<and> \<not> grid_aligned 53 \<and> \<not> grid_aligned 7"
  using drag_off_grid_run
  by (simp add: draw_rect_run geometry_def grid_aligned_def snap_def gridSize_def math_round_def)

subsection \<open>Committing a marquee\<close>

lemma fold_sel_add:
  "set (fold (\<lambda>x sel. if P x then sel_add (g x) sel else sel) xs sel0)
     = set sel0 \<union> g ` {x \<in> set xs. P x}"
  by (induction xs arbitrary: sel0) (auto simp: sel_add_def)

lemma applyMarquee_selection:
  "set (selection (applyMarquee x0 y0 x1 y1 add st)) =
     (if add then set (selection st) else {})
     \<union> (\<lambda>s. ShapeTag (s_id s)) `
         {s \<in> set (shapes st). shape_in_marquee (min x0 x1) (max x0 x1) (min y0 y1) (max y0 y1) s}
     \<union> (\<lambda>c. ConnTag (c_id c)) `
         {c \<in> set (connectors st).
            connector_in_marquee (min x0 x1) (max x0 x1) (min y0 y1) (max y0 y1) (shapes st) c}"
  by (simp add: applyMarquee_def Let_def fold_sel_add)

lemma onUp_marquee:
  assumes "drag st = Some (Marquee start)"
  shows "selection (fst (onUp u e st)) =
     selection (applyMarquee (px start) (py start) (e_x e) (e_y e) (shiftKey e) st)"
  using assms by (simp add: onUp_def Let_def and_then_fst render_fst)

lemma shape_in_marquee_bbox:
  assumes "0 \<le> s_w s" and "0 \<le> s_h s"
  shows "shape_in_marquee l r t b s \<longleftrightarrow> bbox_within l r t b s"
  using assms
  by (auto simp: shape_in_marquee_def bbox_within_def corners_def point_within_def fin_point_def)

lemma jmin_jmax_within:
  "jle (Fin l) (jmin a b) \<and> jle (jmax a b) (Fin r)
     \<longleftrightarrow> (jle (Fin l) a \<and> jle a (Fin r)) \<and> (jle (Fin l) b \<and> jle b (Fin r))"
  by (cases a; cases b) auto

lemma connector_in_marquee_endpoints:
  "connector_in_marquee l r t b shs c \<longleftrightarrow> endpoints_within l r t b shs c"
proof (cases "endpoints shs c")
  case None
  then show ?thesis
    by (auto simp: connector_in_marquee_def endpoints_within_def endpoints_def
          split: option.splits)
next
  case (Some pp)
  obtain p1 p2 where pp: "pp = (p1, p2)" by (cases pp)
  from Some pp obtain s1 s2 where
    f: "find_shape (c_src c) shs = Some s1" "find_shape (c_dst c) shs = Some s2"
    and p: "p1 = anchorPoint s1 (shapeCenter s2)" "p2 = anchorPoint s2 (shapeCenter s1)"
    by (auto simp: endpoints_def split: option.splits)
  have "connector_in_marquee l r t b shs c \<longleftrightarrow>
      (jle (Fin l) (jmin (jx p1) (jx p2)) \<and> jle (jmax (jx p1) (jx p2)) (Fin r))
      \<and> (jle (Fin t) (jmin (jy p1) (jy p2)) \<and> jle (jmax (jy p1) (jy p2)) (Fin b))"
    by (auto simp add: connector_in_marquee_def f p Let_def)
  also have "\<dots> \<longleftrightarrow> point_within l r t b p1 \<and> point_within l r t b p2"
    unfolding jmin_jmax_within point_within_def by blast
  finally show ?thesis
    by (simp add: endpoints_within_def Some pp)
qed

text \<open>
  C5. On pointer-up of a marquee gesture the selection holds, besides what it held
  before when the shift key is down, the tag of a shape exactly when some shape with
  that id passes the test of \<open>applyMarquee\<close>, which for a shape of non-negative
  width and height says that the four corners of its bounding rectangle lie in the
  closed rectangle of the marquee; and the tag of a connector exactly when some
  connector with that id has both shapes and both of its rendered endpoints lie in
  the closed rectangle of the marquee.
\<close>

theorem marquee_commit:
  assumes "drag st = Some (Marquee start)"
  shows "(let left = min (px start) (e_x e); right = max (px start) (e_x e);
              top_y = min (py start) (e_y e); bottom_y = max (py start) (e_y e);
              sel = set (selection (fst (onUp u e st)))
          in (\<forall>i. ShapeTag i \<in> sel \<longleftrightarrow>
                   (shiftKey e \<and> ShapeTag i \<in> set (selection st))
                   \<or> (\<exists>s\<in>set (shapes st). s_id s = i
                         \<and> shape_in_marquee left right top_y bottom_y s))
             \<and> (\<forall>s\<in>set (shapes st). 0 \<le> s_w s \<and> 0 \<le> s_h s \<longrightarrow>
                   (shape_in_marquee left right top_y bottom_y s
                      \<longleftrightarrow> bbox_within left right top_y bottom_y s))
             \<and> (\<forall>i. ConnTag i \<in> sel \<longleftrightarrow>
                   (shiftKey e \<and> ConnTag i \<in> set (selection st))
                   \<or> (\<exists>c\<in>set (connectors st). c_id c = i
                         \<and> endpoints_within left right top_y bottom_y (shapes st) c)))"
proof -
  let ?l = "min (px start) (e_x e)" and ?r = "max (px start) (e_x e)"
  let ?t = "min (py start) (e_y e)" and ?b = "max (py start) (e_y e)"
  let ?sel = "set (selection (fst (onUp u e st)))"
  have sel: "?sel = (if shiftKey e then set (selection st) else {})
     \<union> (\<lambda>s. ShapeTag (s_id s)) ` {s \<in> set (shapes st). shape_in_marquee ?l ?r ?t ?b s}
     \<union> (\<lambda>c. ConnTag (c_id c)) `
         {c \<in> set (connectors st). connector_in_marquee ?l ?r ?t ?b (shapes st) c}"
    unfolding onUp_marquee [OF assms] by (rule applyMarquee_selection)
  have a: "\<forall>i. ShapeTag i \<in> ?sel \<longleftrightarrow>
      (shiftKey e \<and> ShapeTag i \<in> set (selection st))
      \<or> (\<exists>s\<in>set (shapes st). s_id s = i \<and> shape_in_marquee ?l ?r ?t ?b s)"
    unfolding sel by auto
  have b: "\<forall>s\<in>set (shapes st). 0 \<le> s_w s \<and> 0 \<le> s_h s \<longrightarrow>
      (shape_in_marquee ?l ?r ?t ?b s \<longleftrightarrow> bbox_within ?l ?r ?t ?b s)"
    using shape_in_marquee_bbox by blast
  have c: "\<forall>i. ConnTag i \<in> ?sel \<longleftrightarrow>
      (shiftKey e \<and> ConnTag i \<in> set (selection st))
      \<or> (\<exists>c\<in>set (connectors st). c_id c = i \<and> endpoints_within ?l ?r ?t ?b (shapes st) c)"
    unfolding sel connector_in_marquee_endpoints by auto
  from a b c show ?thesis
    unfolding Let_def by blast
qed

text \<open>
  The marquee of \<open>marquee_state\<close> starts at \<open>(0,0)\<close>. Released at \<open>(300,100)\<close> it
  touches the second rectangle on its right and lower sides and selects both
  rectangles and the connector, whose endpoints are \<open>(100, 31.25)\<close> and
  \<open>(200, 43.75)\<close>; released at \<open>(299,100)\<close> the second rectangle extends one unit
  beyond it and is left out, and the connector is still selected.
\<close>

lemma marquee_state_endpoints:
  "endpoints (shapes marquee_state) (hd (connectors marquee_state)) =
     Some (\<lparr>jx = Fin 100, jy = Fin (125 / 4)\<rparr>, \<lparr>jx = Fin 200, jy = Fin (175 / 4)\<rparr>)"
proof -
  have c: "shapeCenter rect_100_50 = \<lparr>px = 50, py = 25\<rparr>"
    "shapeCenter rect_200_0 = \<lparr>px = 250, py = 50\<rparr>"
    by (simp_all add: shapeCenter_def rect_100_50_def rect_200_0_def)
  have f: "s_type rect_100_50 = ''rect''" "s_type rect_200_0 = ''rect''"
    "s_w rect_100_50 = 100" "s_h rect_100_50 = 50" "s_w rect_200_0 = 100" "s_h rect_200_0 = 100"
    "s_id rect_100_50 = 1" "s_id rect_200_0 = 2"
    by (simp_all add: rect_100_50_def rect_200_0_def)
  have a1: "anchorPoint rect_100_50 \<lparr>px = 250, py = 50\<rparr> = \<lparr>jx = Fin 100, jy = Fin (125 / 4)\<rparr>"
    using anchor_rect_formula [of rect_100_50 "\<lparr>px = 250, py = 50\<rparr>"]
    by (simp add: c f Let_def)
  have a2: "anchorPoint rect_200_0 \<lparr>px = 50, py = 25\<rparr> = \<lparr>jx = Fin 200, jy = Fin (175 / 4)\<rparr>"
    using anchor_rect_formula [of rect_200_0 "\<lparr>px = 50, py = 25\<rparr>"]
    by (simp add: c f Let_def)
  show ?thesis
    by (simp add: endpoints_def marquee_state_def find_shape_def f c a1 a2)
qed

theorem marquee_commit_witness:
  "drag marquee_state = Some (Marquee \<lparr>px = 0, py = 0\<rparr>)
   \<and> list_all (\<lambda>s. 0 \<le> s_w s \<and> 0 \<le> s_h s) (shapes marquee_state)
   \<and> bbox_within 0 300 0 100 rect_200_0
   \<and> \<not> bbox_within 0 299 0 100 rect_200_0
   \<and> set (selection (fst (onUp ui0 (pointer 300 100 Blank) marquee_state)))
       = {ShapeTag 1, ShapeTag 2, ConnTag 3}
   \<and> set (selection (fst (onUp ui0 (pointer 299 100 Blank) marquee_state)))
       = {ShapeTag 1, ConnTag 3}"
proof -
  have d: "drag marquee_state = Some (Marquee \<lparr>px = 0, py = 0\<rparr>)"
    by (simp add: marquee_state_def)
  have sh: "shapes marquee_state = [rect_100_50, rect_200_0]"
    and sel0: "selection marquee_state = []"
    by (simp_all add: marquee_state_def)
  have ep: "endpoints [rect_100_50, rect_200_0]
       \<lparr>c_id = 3, c_src = 1, c_dst = 2, c_arrow = ''last'', c_stroke = ''#000000'', c_width = 2\<rparr>
     = Some (\<lparr>jx = Fin 100, jy = Fin (125 / 4)\<rparr>, \<lparr>jx = Fin 200, jy = Fin (175 / 4)\<rparr>)"
    using marquee_state_endpoints by (simp add: marquee_state_def)
  have cn: "connectors marquee_state =
      [\<lparr>c_id = 3, c_src = 1, c_dst = 2, c_arrow = ''last'', c_stroke = ''#000000'', c_width = 2\<rparr>]"
    by (simp add: marquee_state_def)
  have f: "s_x rect_100_50 = 0" "s_y rect_100_50 = 0" "s_w rect_100_50 = 100"
    "s_h rect_100_50 = 50" "s_id rect_100_50 = 1"
    "s_x rect_200_0 = 200" "s_y rect_200_0 = 0" "s_w rect_200_0 = 100"
    "s_h rect_200_0 = 100" "s_id rect_200_0 = 2"
    by (simp_all add: rect_100_50_def rect_200_0_def)
  have nonneg: "list_all (\<lambda>s. 0 \<le> s_w s \<and> 0 \<le> s_h s) (shapes marquee_state)"
    by (simp add: sh f)
  have touch: "bbox_within 0 300 0 100 rect_200_0"
    and beyond: "\<not> bbox_within 0 299 0 100 rect_200_0"
    by (simp_all add: bbox_within_def corners_def point_within_def fin_point_def f)
  let ?sel = "\<lambda>x. set (selection (fst (onUp ui0 (pointer x 100 Blank) marquee_state)))"
  note t300 = marquee_commit [OF d, of "pointer 300 100 Blank" ui0]
  note t299 = marquee_commit [OF d, of "pointer 299 100 Blank" ui0]
  have s300: "\<And>i. ShapeTag i \<in> ?sel 300 \<longleftrightarrow> i = 1 \<or> i = 2"
    and c300: "\<And>i. ConnTag i \<in> ?sel 300 \<longleftrightarrow> i = 3"
    using t300
    by (auto simp add: Let_def pointer_def sh sel0 cn f shape_in_marquee_def
          endpoints_within_def ep point_within_def)
  have s299: "\<And>i. ShapeTag i \<in> ?sel 299 \<longleftrightarrow> i = 1"
    and c299: "\<And>i. ConnTag i \<in> ?sel 299 \<longleftrightarrow> i = 3"
    using t299
    by (auto simp add: Let_def pointer_def sh sel0 cn f shape_in_marquee_def
          endpoints_within_def ep point_within_def)
  have e300: "?sel 300 = {ShapeTag 1, ShapeTag 2, ConnTag 3}"
  proof (rule set_eqI)
    fix tg show "tg \<in> ?sel 300 \<longleftrightarrow> tg \<in> {ShapeTag 1, ShapeTag 2, ConnTag 3}"
      by (cases tg) (simp_all add: s300 c300)
  qed
  have e299: "?sel 299 = {ShapeTag 1, ConnTag 3}"
  proof (rule set_eqI)
    fix tg show "tg \<in> ?sel 299 \<longleftrightarrow> tg \<in> {ShapeTag 1, ConnTag 3}"
      by (cases tg) (simp_all add: s299 c299)
  qed
  from d nonneg touch beyond e300 e299 show ?thesis by blast
qed

subsection \<open>Rendering never raises on a run over rendered elements\<close>

lemma shape_ids_set: "set (shape_ids sel) = {i. ShapeTag i \<in> set sel}"
  by (induction sel rule: shape_ids.induct) auto

lemma sel_ok_iff:
  "sel_ok st \<longleftrightarrow> (\<forall>i. ShapeTag i \<in> set (selection st) \<longrightarrow> i \<in> s_id ` set (shapes st))"
  by (auto simp: sel_ok_def selectedShapeIds_def list_all_iff shape_ids_set)



lemma update_shape_idset:
  assumes "\<And>s. s_id (f s) = s_id s"
  shows "s_id ` set (update_shape sid f shs) = s_id ` set shs"
  using update_shape_ids [OF assms, of sid shs] by (metis set_map)

lemma move_shapes_idset: "s_id ` set (move_shapes dx dy sids shs) = s_id ` set shs"
  using move_shapes_ids [of dx dy sids shs] by (metis set_map)

lemma onDown_sel_ok:
  assumes "sel_ok st" and "target_ok st (e_target e)"
  shows "sel_ok (fst (onDown u e st))"
  using assms unfolding sel_ok_iff
  by (auto simp: onDown_def Let_def render_fst newId_def sel_add_def pickTag_def
        update_shape_idset
        split: target.splits option.splits tag.splits if_splits)

lemma onMove_sel_ok:
  assumes "sel_ok st"
  shows "sel_ok (fst (onMove e st))"
  using assms unfolding sel_ok_iff
  by (auto simp: onMove_def Let_def render_fst update_shape_idset move_shapes_idset
        split: option.splits drag.splits)

lemma onUp_selection:
  "selection (fst (onUp u e st)) =
     (case drag st of
        Some (Marquee start) \<Rightarrow>
          selection (applyMarquee (px start) (py start) (e_x e) (e_y e) (shiftKey e) st)
      | _ \<Rightarrow> selection st)"
  by (auto simp: onUp_def Let_def render_fst and_then_fst newId_def
        split: option.splits drag.splits tag.splits)

lemma applyMarquee_sel_ok:
  assumes "sel_ok st"
  shows "ShapeTag i \<in> set (selection (applyMarquee x0 y0 x1 y1 add st))
           \<longrightarrow> i \<in> s_id ` set (shapes st)"
  using assms unfolding sel_ok_iff
  by (auto simp: applyMarquee_selection split: if_splits)

lemma onUp_sel_ok:
  assumes "sel_ok st"
  shows "sel_ok (fst (onUp u e st))"
proof (cases "\<exists>start. drag st = Some (Marquee start)")
  case True
  then obtain start where "drag st = Some (Marquee start)" ..
  then have "selection (fst (onUp u e st)) =
      selection (applyMarquee (px start) (py start) (e_x e) (e_y e) (shiftKey e) st)"
    by (simp add: onUp_selection)
  with applyMarquee_sel_ok [OF assms] show ?thesis
    unfolding sel_ok_iff [of "fst (onUp u e st)"] onUp_shapes by simp
next
  case False
  then have "selection (fst (onUp u e st)) = selection st"
    by (auto simp: onUp_selection split: option.splits drag.splits)
  with assms show ?thesis
    by (simp add: sel_ok_iff onUp_shapes)
qed

lemma step_sel_ok:
  assumes "sel_ok st" and "input_ok st i"
  shows "sel_ok (step i st)"
proof (cases i)
  case (ToolClick t)
  with assms(1) show ?thesis by (simp add: sel_ok_def selectedShapeIds_def)
next
  case (PointerDown u e)
  with assms show ?thesis by (simp add: onDown_sel_ok)
next
  case (PointerMove e)
  with assms(1) show ?thesis by (simp add: onMove_sel_ok)
next
  case (PointerUp u e)
  with assms(1) show ?thesis by (simp add: onUp_sel_ok)
qed

lemma run_sel_ok:
  assumes "sel_ok st" and "rendered_run ins st"
  shows "sel_ok (run ins st)"
  using assms unfolding run_def
  by (induction ins arbitrary: st) (simp_all add: step_sel_ok)


subsection \<open>The connect gesture, released\<close>














end
